theory Spec2Isabelle
  imports Complex_Main "HOL-Library.Log_Nat"
begin

section \<open>Constants of logic.h and logic.c\<close>

definition MAX_TOKENS :: nat where
  "MAX_TOKENS = 50"

definition ERROR_MSG_LEN :: nat where
  "ERROR_MSG_LEN = 17"

definition LCD_LINE_LEN :: nat where
  "LCD_LINE_LEN = 16"

definition MAX_DISPLAY_STR :: nat where
  "MAX_DISPLAY_STR = 32"

section \<open>The arithmetic of the C type float\<close>

text \<open>
  logic.c computes on \<^verbatim>\<open>float\<close>. The operations it uses are collected in a record,
  and every function of the embedding takes that record as its first argument, so that
  the general theorems hold for whatever the target's float arithmetic does.
  \<^item> \<open>fl_const q\<close>: the float denoted by a literal or an integer conversion of value
    \<open>q\<close> (\<^verbatim>\<open>0.0f\<close>, \<^verbatim>\<open>0.1f\<close>, \<^verbatim>\<open>10.0f\<close>, \<^verbatim>\<open>1e-7f\<close>, the
    implicit conversion of \<^verbatim>\<open>int digit\<close>, \<^verbatim>\<open>(float)op_char\<close>);
  \<^item> \<open>fl_add\<close>, \<open>fl_sub\<close>, \<open>fl_mul\<close>, \<open>fl_div\<close>, \<open>fl_neg\<close>: \<^verbatim>\<open>+ - * /\<close>
    and unary minus;
  \<^item> \<open>fl_abs\<close>: \<^verbatim>\<open>fabsf\<close>; \<open>fl_lt\<close>: \<^verbatim>\<open><\<close>;
  \<^item> \<open>fl_to_char\<close>: the conversion \<^verbatim>\<open>(char)expr_data[i]\<close>;
  \<^item> \<open>fl_format\<close>: the contents of \<^verbatim>\<open>result_str_buf\<close> after the \<^verbatim>\<open>snprintf\<close>
    formatting of a result in \<^verbatim>\<open>RunCalculatorLogic\<close>.
\<close>

record 'f farith =
  fl_const :: "rat \<Rightarrow> 'f"
  fl_add :: "'f \<Rightarrow> 'f \<Rightarrow> 'f"
  fl_sub :: "'f \<Rightarrow> 'f \<Rightarrow> 'f"
  fl_mul :: "'f \<Rightarrow> 'f \<Rightarrow> 'f"
  fl_div :: "'f \<Rightarrow> 'f \<Rightarrow> 'f"
  fl_neg :: "'f \<Rightarrow> 'f"
  fl_abs :: "'f \<Rightarrow> 'f"
  fl_lt :: "'f \<Rightarrow> 'f \<Rightarrow> bool"
  fl_to_char :: "'f \<Rightarrow> char"
  fl_format :: "'f \<Rightarrow> string"

definition FLOAT_EPSILON :: "'f farith \<Rightarrow> 'f" where
  "FLOAT_EPSILON F = fl_const F (1 / 10000000)"

definition fl_of_char :: "'f farith \<Rightarrow> char \<Rightarrow> 'f" where
  "fl_of_char F c = fl_const F (of_nat (of_char c))"

section \<open>Global state of logic.c\<close>

text \<open>
  The global variables of logic.c. The character buffers are lists of their declared
  size whose unused cells hold the NUL character; \<open>expr_type\<close> and \<open>expr_data\<close> are
  the two parallel arrays of \<open>MAX_TOKENS\<close> cells, of which the first \<open>expr_len\<close> are
  in use. The three \<^verbatim>\<open>int\<close> counters are natural numbers: the code only sets them to
  zero and increments them below the sizes of the buffers.
\<close>

record 'f calc =
  calculator_error :: bool
  error_message :: string
  expr_type :: "char list"
  expr_data :: "'f list"
  expr_len :: nat
  expression_str :: string
  expression_index :: nat
  current_num_str :: string
  current_num_index :: nat

definition NUL :: char where
  "NUL = CHR 0x00"

definition c_str :: "string \<Rightarrow> string" where
  "c_str buf = takeWhile (\<lambda>c. c \<noteq> NUL) buf"

definition strlen :: "string \<Rightarrow> nat" where
  "strlen buf = length (c_str buf)"

text \<open>\<^verbatim>\<open>strncpy(dst, src, n)\<close>: the first \<open>n\<close> cells of \<open>dst\<close> receive the characters of
  \<open>src\<close> up to its terminator, padded with NUL.\<close>

definition strncpy :: "string \<Rightarrow> string \<Rightarrow> nat \<Rightarrow> string" where
  "strncpy dst src n = take n (c_str src @ replicate n NUL) @ drop n dst"

definition set_error :: "string \<Rightarrow> 'f calc \<Rightarrow> 'f calc" where
  "set_error message s =
     (if calculator_error s then s
      else s\<lparr>calculator_error := True,
             error_message :=
               (strncpy (error_message s) message (ERROR_MSG_LEN - 1))
                 [ERROR_MSG_LEN - 1 := NUL]\<rparr>)"

definition clear_all_state :: "'f calc \<Rightarrow> 'f calc" where
  "clear_all_state s =
     s\<lparr>expr_len := 0,
       expression_index := 0,
       current_num_index := 0,
       expression_str := replicate (length (expression_str s)) NUL,
       current_num_str := replicate (length (current_num_str s)) NUL,
       calculator_error := False,
       error_message := (error_message s)[0 := NUL]\<rparr>"

section \<open>Token buffer\<close>

definition push_operand_to_expr :: "'f \<Rightarrow> 'f calc \<Rightarrow> 'f calc" where
  "push_operand_to_expr num s =
     (if calculator_error s then s
      else if MAX_TOKENS \<le> expr_len s then set_error ''Err: Expr Long'' s
      else s\<lparr>expr_type := (expr_type s)[expr_len s := CHR ''N''],
             expr_data := (expr_data s)[expr_len s := num],
             expr_len := expr_len s + 1\<rparr>)"

text \<open>\<^verbatim>\<open>strcat(expression_str, str_to_add)\<close> writes the characters of the argument and a
  terminator from the first NUL of the buffer on.\<close>

definition strcat :: "string \<Rightarrow> string \<Rightarrow> string" where
  "strcat dst src =
     (let n = strlen dst; w = c_str src @ [NUL]
      in take n dst @ w @ drop (n + length w) dst)"

definition add_to_expression_string :: "string \<Rightarrow> 'f calc \<Rightarrow> 'f calc" where
  "add_to_expression_string str_to_add s =
     (let len_to_add = strlen str_to_add
      in if expression_index s + len_to_add < MAX_DISPLAY_STR - 1
         then s\<lparr>expression_str := strcat (expression_str s) str_to_add,
                expression_index := expression_index s + len_to_add\<rparr>
         else s)"

definition push_operator_to_expr :: "'f farith \<Rightarrow> char \<Rightarrow> 'f calc \<Rightarrow> 'f calc" where
  "push_operator_to_expr F op_char s =
     (if calculator_error s then s
      else if MAX_TOKENS \<le> expr_len s then set_error ''Err: Expr Long'' s
      else add_to_expression_string [op_char, NUL]
             (s\<lparr>expr_type := (expr_type s)[expr_len s := CHR ''O''],
                expr_data := (expr_data s)[expr_len s := fl_of_char F op_char],
                expr_len := expr_len s + 1\<rparr>))"

text \<open>The tokens in use: cells \<open>0 .. expr_len - 1\<close> of the two arrays, in order.\<close>

definition tokens :: "'f calc \<Rightarrow> (char \<times> 'f) list" where
  "tokens s = take (expr_len s) (zip (expr_type s) (expr_data s))"

section \<open>Precedence evaluator\<close>

definition get_precedence :: "char \<Rightarrow> nat" where
  "get_precedence op =
     (if op = CHR ''+'' \<or> op = CHR ''-'' then 1
      else if op = CHR ''*'' \<or> op = CHR ''/'' then 2
      else 0)"

definition execute_apply_operator ::
  "'f farith \<Rightarrow> char \<Rightarrow> 'f \<Rightarrow> 'f \<Rightarrow> 'f calc \<Rightarrow> 'f \<times> 'f calc" where
  "execute_apply_operator F op a b s =
     (if calculator_error s then (fl_const F 0, s)
      else if op = CHR ''+'' then (fl_add F a b, s)
      else if op = CHR ''-'' then (fl_sub F a b, s)
      else if op = CHR ''*'' then (fl_mul F a b, s)
      else if op = CHR ''/'' then
        (if fl_lt F (fl_abs F b) (FLOAT_EPSILON F)
         then (fl_const F 0, set_error ''Err: Div Zero'' s)
         else (fl_div F a b, s))
      else (fl_const F 0, set_error ''Err: Syntax'' s))"

text \<open>
  The two local stacks of \<^verbatim>\<open>evaluate_full_expression\<close> are lists whose head is the
  top cell: \<^verbatim>\<open>val_top\<close> is \<open>length vals - 1\<close> and \<^verbatim>\<open>op_top\<close> is
  \<open>length ops - 1\<close>. A loop that executes \<^verbatim>\<open>return 0.0f\<close> yields \<open>Inl\<close> of the
  state at that point; a loop that runs to its end yields \<open>Inr\<close> of the stacks and the
  state.
\<close>

fun reduce_ops ::
  "'f farith \<Rightarrow> char \<Rightarrow> 'f list \<Rightarrow> char list \<Rightarrow> 'f calc
     \<Rightarrow> 'f calc + ('f list \<times> char list \<times> 'f calc)" where
  "reduce_ops F cur vals [] s = Inr (vals, [], s)"
| "reduce_ops F cur vals (op # ops) s =
     (if get_precedence cur \<le> get_precedence op then
        (case vals of
           b # a # vs \<Rightarrow>
             (case execute_apply_operator F op a b s of
                (r, s') \<Rightarrow>
                  if calculator_error s' then Inl s'
                  else reduce_ops F cur (r # vs) ops s')
         | _ \<Rightarrow> Inl (set_error ''Err: Syntax'' s))
      else Inr (vals, op # ops, s))"

fun scan_tokens ::
  "'f farith \<Rightarrow> (char \<times> 'f) list \<Rightarrow> 'f list \<Rightarrow> char list \<Rightarrow> 'f calc
     \<Rightarrow> 'f calc + ('f list \<times> char list \<times> 'f calc)" where
  "scan_tokens F [] vals ops s = Inr (vals, ops, s)"
| "scan_tokens F ((ty, d) # rest) vals ops s =
     (if ty = CHR ''N'' then
        (if MAX_TOKENS \<le> length vals then Inl (set_error ''Err: Stack'' s)
         else scan_tokens F rest (d # vals) ops s)
      else
        (case reduce_ops F (fl_to_char F d) vals ops s of
           Inl s' \<Rightarrow> Inl s'
         | Inr (vals', ops', s') \<Rightarrow>
             if MAX_TOKENS \<le> length ops' then Inl (set_error ''Err: Stack'' s')
             else scan_tokens F rest vals' (fl_to_char F d # ops') s'))"

fun drain_ops ::
  "'f farith \<Rightarrow> 'f list \<Rightarrow> char list \<Rightarrow> 'f calc \<Rightarrow> 'f calc + ('f list \<times> 'f calc)" where
  "drain_ops F vals [] s = Inr (vals, s)"
| "drain_ops F vals (op # ops) s =
     (case vals of
        b # a # vs \<Rightarrow>
          (case execute_apply_operator F op a b s of
             (r, s') \<Rightarrow>
               if calculator_error s' then Inl s'
               else drain_ops F (r # vs) ops s')
      | _ \<Rightarrow> Inl (set_error ''Err: Syntax'' s))"

definition evaluate_full_expression :: "'f farith \<Rightarrow> 'f calc \<Rightarrow> 'f \<times> 'f calc" where
  "evaluate_full_expression F s =
     (if calculator_error s then (fl_const F 0, s)
      else if expr_len s = 0 then (fl_const F 0, s)
      else if 0 < expr_len s \<and> expr_type s ! (expr_len s - 1) = CHR ''O''
        then (fl_const F 0, set_error ''Err: Syntax'' s)
      else if expr_len s = 1 \<and> expr_type s ! 0 = CHR ''N'' then (expr_data s ! 0, s)
      else
        (case scan_tokens F (tokens s) [] [] s of
           Inl s' \<Rightarrow> (fl_const F 0, s')
         | Inr (vals, ops, s1) \<Rightarrow>
             (case drain_ops F vals ops s1 of
                Inl s' \<Rightarrow> (fl_const F 0, s')
              | Inr (vals', s2) \<Rightarrow>
                  if length vals' \<noteq> 1 then (fl_const F 0, set_error ''Err: Syntax'' s2)
                  else (hd vals', s2))))"

section \<open>Number parser\<close>

text \<open>The characters \<^verbatim>\<open>current_num_str[0 .. current_num_index - 1]\<close>, the only cells
  the parser reads.\<close>

definition scanned :: "'f calc \<Rightarrow> string" where
  "scanned s = take (current_num_index s) (current_num_str s)"

definition is_digit :: "char \<Rightarrow> bool" where
  "is_digit c \<longleftrightarrow> (of_char CHR ''0'' :: nat) \<le> of_char c \<and> (of_char c :: nat) \<le> of_char CHR ''9''"

definition digit_of :: "char \<Rightarrow> nat" where
  "digit_of c = of_char c - of_char CHR ''0''"

text \<open>The \<^verbatim>\<open>for\<close> loop of \<^verbatim>\<open>parse_current_input_number\<close> over the characters it
  reads; \<open>Inl\<close> is the \<^verbatim>\<open>return 0.0f\<close> after \<^verbatim>\<open>set_error\<close>.\<close>

fun parse_digits ::
  "'f farith \<Rightarrow> string \<Rightarrow> 'f \<Rightarrow> 'f \<Rightarrow> bool \<Rightarrow> 'f calc \<Rightarrow> 'f calc + 'f" where
  "parse_digits F [] result decimal_multiplier in_decimal_part s = Inr result"
| "parse_digits F (c # cs) result decimal_multiplier in_decimal_part s =
     (if c = CHR ''.'' then
        (if in_decimal_part then Inl (set_error ''Err: Syntax'' s)
         else parse_digits F cs result decimal_multiplier True s)
      else if is_digit c then
        (if \<not> in_decimal_part
         then parse_digits F cs
                (fl_add F (fl_mul F result (fl_const F 10)) (fl_const F (of_nat (digit_of c))))
                decimal_multiplier in_decimal_part s
         else parse_digits F cs
                (fl_add F result (fl_mul F (fl_const F (of_nat (digit_of c))) decimal_multiplier))
                (fl_mul F decimal_multiplier (fl_const F (1 / 10))) in_decimal_part s)
      else Inl (set_error ''Err: Syntax'' s))"

definition parse_current_input_number :: "'f farith \<Rightarrow> 'f calc \<Rightarrow> 'f \<times> 'f calc" where
  "parse_current_input_number F s =
     (if current_num_index s = 0 then (fl_const F 0, s)
      else if current_num_index s = 1 \<and> current_num_str s ! 0 = CHR ''-''
        then (fl_const F 0, set_error ''Err: Syntax'' s)
      else if current_num_index s = 1 \<and> current_num_str s ! 0 = CHR ''.''
        then (fl_const F 0, set_error ''Err: Syntax'' s)
      else
        let is_negative_num = (current_num_str s ! 0 = CHR ''-'');
            start_idx = (if is_negative_num then 1 else 0)
        in case parse_digits F (drop start_idx (scanned s))
                  (fl_const F 0) (fl_const F (1 / 10)) False s of
             Inl s' \<Rightarrow> (fl_const F 0, s')
           | Inr result \<Rightarrow> (if is_negative_num then fl_neg F result else result, s))"

section \<open>IEEE 754 binary32 arithmetic\<close>

text \<open>
  A concrete float arithmetic for evaluating the functions on inputs: binary32 with
  round-to-nearest, ties-to-even, gradual underflow and overflow to infinity. A finite
  float is the rational it denotes (zero is unsigned in this model; the sign of zero is
  visible in C only through division by zero and \<^verbatim>\<open>printf\<close>).
\<close>

datatype f32 = Fin rat | PInf | NInf | NaN

definition pow2 :: "int \<Rightarrow> rat" where
  "pow2 e = (if 0 \<le> e then 2 ^ nat e else 1 / 2 ^ nat (- e))"

definition scale_num :: "int \<Rightarrow> int \<Rightarrow> int" where
  "scale_num p k = (if k < 0 then p * 2 ^ nat (- k) else p)"

definition scale_den :: "int \<Rightarrow> int \<Rightarrow> int" where
  "scale_den q k = (if k < 0 then q else q * 2 ^ nat k)"

text \<open>\<open>binade p q\<close> is the exponent \<open>e\<close> with \<open>2\<^sup>e \<le> p / q < 2\<^sup>e\<^sup>+\<^sup>1\<close>, for positive
  \<open>p\<close> and \<open>q\<close>.\<close>

definition binade :: "int \<Rightarrow> int \<Rightarrow> int" where
  "binade p q =
     (let e0 = bitlen p - bitlen q
      in if scale_den q e0 \<le> scale_num p e0 then e0 else e0 - 1)"

definition round_even :: "int \<Rightarrow> int \<Rightarrow> int" where
  "round_even num den =
     (let n0 = num div den; r = num mod den
      in if 2 * r < den then n0
         else if den < 2 * r then n0 + 1
         else if even n0 then n0 else n0 + 1)"

definition round_f32 :: "rat \<Rightarrow> f32" where
  "round_f32 x =
     (if x = 0 then Fin 0
      else
        let (p0, q) = quotient_of x;
            p = \<bar>p0\<bar>;
            k = max (binade p q) (- 126) - 23;
            m = of_int (round_even (scale_num p k) (scale_den q k)) * pow2 k
        in if 2 ^ 128 \<le> m then (if p0 < 0 then NInf else PInf)
           else Fin (if p0 < 0 then - m else m))"

fun f32_neg :: "f32 \<Rightarrow> f32" where
  "f32_neg (Fin a) = Fin (- a)"
| "f32_neg PInf = NInf"
| "f32_neg NInf = PInf"
| "f32_neg NaN = NaN"

fun f32_abs :: "f32 \<Rightarrow> f32" where
  "f32_abs (Fin a) = Fin \<bar>a\<bar>"
| "f32_abs PInf = PInf"
| "f32_abs NInf = PInf"
| "f32_abs NaN = NaN"

fun f32_add :: "f32 \<Rightarrow> f32 \<Rightarrow> f32" where
  "f32_add (Fin a) (Fin b) = round_f32 (a + b)"
| "f32_add NaN _ = NaN"
| "f32_add _ NaN = NaN"
| "f32_add PInf NInf = NaN"
| "f32_add NInf PInf = NaN"
| "f32_add PInf _ = PInf"
| "f32_add NInf _ = NInf"
| "f32_add (Fin a) b = b"

definition f32_sub :: "f32 \<Rightarrow> f32 \<Rightarrow> f32" where
  "f32_sub a b = f32_add a (f32_neg b)"

text \<open>An infinity of the sign of \<open>x\<close> (positive for \<open>0 \<le> x\<close>).\<close>

definition inf_sign :: "rat \<Rightarrow> f32" where
  "inf_sign x = (if x < 0 then NInf else PInf)"

fun f32_mul :: "f32 \<Rightarrow> f32 \<Rightarrow> f32" where
  "f32_mul (Fin a) (Fin b) = round_f32 (a * b)"
| "f32_mul NaN _ = NaN"
| "f32_mul _ NaN = NaN"
| "f32_mul (Fin a) PInf = (if a = 0 then NaN else inf_sign a)"
| "f32_mul (Fin a) NInf = (if a = 0 then NaN else inf_sign (- a))"
| "f32_mul PInf (Fin b) = (if b = 0 then NaN else inf_sign b)"
| "f32_mul NInf (Fin b) = (if b = 0 then NaN else inf_sign (- b))"
| "f32_mul PInf PInf = PInf"
| "f32_mul NInf NInf = PInf"
| "f32_mul PInf NInf = NInf"
| "f32_mul NInf PInf = NInf"

fun f32_div :: "f32 \<Rightarrow> f32 \<Rightarrow> f32" where
  "f32_div (Fin a) (Fin b) =
     (if b = 0 then (if a = 0 then NaN else inf_sign a) else round_f32 (a / b))"
| "f32_div NaN _ = NaN"
| "f32_div _ NaN = NaN"
| "f32_div (Fin a) _ = Fin 0"
| "f32_div PInf (Fin b) = (if b < 0 then NInf else PInf)"
| "f32_div NInf (Fin b) = (if b < 0 then PInf else NInf)"
| "f32_div _ _ = NaN"

fun f32_lt :: "f32 \<Rightarrow> f32 \<Rightarrow> bool" where
  "f32_lt (Fin a) (Fin b) \<longleftrightarrow> a < b"
| "f32_lt NaN _ \<longleftrightarrow> False"
| "f32_lt _ NaN \<longleftrightarrow> False"
| "f32_lt _ NInf \<longleftrightarrow> False"
| "f32_lt PInf _ \<longleftrightarrow> False"
| "f32_lt _ _ \<longleftrightarrow> True"

text \<open>The conversion to \<^verbatim>\<open>char\<close> truncates towards zero; C leaves it undefined for
  values that \<^verbatim>\<open>char\<close> cannot hold, where this model reduces modulo 256 and takes
  NUL for infinities and NaN.\<close>

fun f32_to_char :: "f32 \<Rightarrow> char" where
  "f32_to_char (Fin a) = char_of (if a < 0 then - \<lfloor>- a\<rfloor> else \<lfloor>a\<rfloor>)"
| "f32_to_char _ = NUL"

definition binary32 :: "(f32 \<Rightarrow> string) \<Rightarrow> f32 farith" where
  "binary32 fmt =
     \<lparr>fl_const = round_f32, fl_add = f32_add, fl_sub = f32_sub, fl_mul = f32_mul,
      fl_div = f32_div, fl_neg = f32_neg, fl_abs = f32_abs, fl_lt = f32_lt,
      fl_to_char = f32_to_char, fl_format = fmt\<rparr>"

section \<open>Exact arithmetic\<close>

text \<open>The same operations without rounding, on the rationals: the arithmetic in which
  the decimal value of an entry is stated.\<close>

definition exact_arith :: "(rat \<Rightarrow> string) \<Rightarrow> rat farith" where
  "exact_arith fmt =
     \<lparr>fl_const = (\<lambda>q. q), fl_add = (+), fl_sub = (-), fl_mul = (*),
      fl_div = (/), fl_neg = uminus, fl_abs = abs, fl_lt = (<),
      fl_to_char = (\<lambda>q. char_of \<lfloor>q\<rfloor>), fl_format = fmt\<rparr>"

section \<open>Concrete states\<close>

text \<open>The globals as C initialises them at program start: every cell zero.\<close>

definition init_calc :: "'f farith \<Rightarrow> 'f calc" where
  "init_calc F =
     \<lparr>calculator_error = False,
      error_message = replicate ERROR_MSG_LEN NUL,
      expr_type = replicate MAX_TOKENS NUL,
      expr_data = replicate MAX_TOKENS (fl_const F 0),
      expr_len = 0,
      expression_str = replicate MAX_DISPLAY_STR NUL,
      expression_index = 0,
      current_num_str = replicate (LCD_LINE_LEN + 1) NUL,
      current_num_index = 0\<rparr>"

text \<open>\<^verbatim>\<open>setup_expression\<close> of test_logic.c: clear the state, then store the given
  type tags and data in the first cells of the arrays.\<close>

definition setup_expression :: "char list \<Rightarrow> 'f list \<Rightarrow> 'f calc \<Rightarrow> 'f calc" where
  "setup_expression types data s =
     (let s0 = clear_all_state s
      in s0\<lparr>expr_len := length types,
             expr_type := types @ drop (length types) (expr_type s0),
             expr_data := data @ drop (length data) (expr_data s0)\<rparr>)"

text \<open>The entry set-up of the parser tests of test_logic.c:
  \<^verbatim>\<open>strcpy(current_num_str, cs); current_num_index = strlen(current_num_str)\<close>.\<close>

definition set_entry :: "string \<Rightarrow> 'f calc \<Rightarrow> 'f calc" where
  "set_entry cs s =
     s\<lparr>current_num_str := cs @ [NUL] @ drop (length cs + 1) (current_num_str s),
       current_num_index := length cs\<rparr>"

text \<open>The binary32 arithmetic with a formatter that prints nothing, for inputs on which
  no result is formatted.\<close>

definition b32 :: "f32 farith" where
  "b32 = binary32 (\<lambda>x. [])"

section \<open>Sequences of operations\<close>

text \<open>The tokens of the specification's data model, and their representation in the
  cells of \<open>expr_type\<close> and \<open>expr_data\<close> as \<^verbatim>\<open>push_operand_to_expr\<close> and
  \<^verbatim>\<open>push_operator_to_expr\<close> store them.\<close>

datatype 'f token = Number 'f | Operator char

fun encode :: "'f farith \<Rightarrow> 'f token \<Rightarrow> char \<times> 'f" where
  "encode F (Number x) = (CHR ''N'', x)"
| "encode F (Operator c) = (CHR ''O'', fl_of_char F c)"

fun do_push :: "'f farith \<Rightarrow> 'f token \<Rightarrow> 'f calc \<Rightarrow> 'f calc" where
  "do_push F (Number x) s = push_operand_to_expr x s"
| "do_push F (Operator c) s = push_operator_to_expr F c s"

definition run_pushes :: "'f farith \<Rightarrow> 'f token list \<Rightarrow> 'f calc \<Rightarrow> 'f calc" where
  "run_pushes F ps s = foldl (\<lambda>s p. do_push F p s) s ps"

text \<open>Calls of the functions of logic.c other than \<^verbatim>\<open>clear_all_state\<close>, in any order.\<close>

datatype 'f calc_op =
    SetError string
  | PushOperand 'f
  | PushOperator char
  | AddToExpression string
  | ParseNumber
  | Evaluate

fun run_op :: "'f farith \<Rightarrow> 'f calc_op \<Rightarrow> 'f calc \<Rightarrow> 'f calc" where
  "run_op F (SetError m) s = set_error m s"
| "run_op F (PushOperand x) s = push_operand_to_expr x s"
| "run_op F (PushOperator c) s = push_operator_to_expr F c s"
| "run_op F (AddToExpression str) s = add_to_expression_string str s"
| "run_op F ParseNumber s = snd (parse_current_input_number F s)"
| "run_op F Evaluate s = snd (evaluate_full_expression F s)"

definition run_ops :: "'f farith \<Rightarrow> 'f calc_op list \<Rightarrow> 'f calc \<Rightarrow> 'f calc" where
  "run_ops F ops s = foldl (\<lambda>s op. run_op F op s) s ops"

text \<open>A loop result \<open>r\<close> started in state \<open>s\<close> either returned early after a
  \<open>set_error\<close> on \<open>s\<close>, or ended in \<open>s\<close> itself.\<close>

definition loop_frame :: "'f calc \<Rightarrow> 'f calc + 'a \<Rightarrow> ('a \<Rightarrow> 'f calc) \<Rightarrow> bool" where
  "loop_frame s r st \<longleftrightarrow> (case r of Inl s' \<Rightarrow> \<exists>m. s' = set_error m s | Inr x \<Rightarrow> st x = s)"

section \<open>The value of an infix expression\<close>

text \<open>
  The reference against which the evaluator is checked, written from the specification:
  a well-formed expression is a number followed by operator-number pairs; \<open>*\<close> and
  \<open>/\<close> (precedence 2) bind tighter than \<open>+\<close> and \<open>-\<close> (precedence 1), and operators
  of equal precedence associate to the left. A division whose divisor is within the
  epsilon of zero has no value.
\<close>

definition is_mul_op :: "char \<Rightarrow> bool" where
  "is_mul_op c \<longleftrightarrow> c = CHR ''*'' \<or> c = CHR ''/''"

definition is_add_op :: "char \<Rightarrow> bool" where
  "is_add_op c \<longleftrightarrow> c = CHR ''+'' \<or> c = CHR ''-''"

fun op_tail :: "'f token list \<Rightarrow> bool" where
  "op_tail [] \<longleftrightarrow> True"
| "op_tail (Operator c # Number b # rest) \<longleftrightarrow> (is_add_op c \<or> is_mul_op c) \<and> op_tail rest"
| "op_tail _ \<longleftrightarrow> False"

fun well_formed :: "'f token list \<Rightarrow> bool" where
  "well_formed (Number a # rest) \<longleftrightarrow> op_tail rest"
| "well_formed _ \<longleftrightarrow> False"

definition apply_infix :: "'f farith \<Rightarrow> char \<Rightarrow> 'f \<Rightarrow> 'f \<Rightarrow> 'f option" where
  "apply_infix F c a b =
     (if c = CHR ''+'' then Some (fl_add F a b)
      else if c = CHR ''-'' then Some (fl_sub F a b)
      else if c = CHR ''*'' then Some (fl_mul F a b)
      else if fl_lt F (fl_abs F b) (FLOAT_EPSILON F) then None
      else Some (fl_div F a b))"

text \<open>A term: a number followed by a run of \<open>*\<close> and \<open>/\<close>, applied left to right. The
  result is the value of the term and the tokens after it.\<close>

fun term_value :: "'f farith \<Rightarrow> 'f \<Rightarrow> 'f token list \<Rightarrow> 'f option \<times> 'f token list" where
  "term_value F a (Operator c # Number b # rest) =
     (if is_mul_op c then
        (case apply_infix F c a b of
           None \<Rightarrow> (None, rest)
         | Some r \<Rightarrow> term_value F r rest)
      else (Some a, Operator c # Number b # rest))"
| "term_value F a rest = (Some a, rest)"

text \<open>A sum: terms joined by \<open>+\<close> and \<open>-\<close>, applied left to right.\<close>

function sum_value :: "'f farith \<Rightarrow> 'f \<Rightarrow> 'f token list \<Rightarrow> 'f option" where
  "sum_value F acc (Operator c # Number b # rest) =
     (case term_value F b rest of
        (None, rest') \<Rightarrow> None
      | (Some t, rest') \<Rightarrow>
          (case apply_infix F c acc t of
             None \<Rightarrow> None
           | Some r \<Rightarrow> sum_value F r rest'))"
| "sum_value F acc [] = Some acc"
| "sum_value F acc [t] = Some acc"
| "sum_value F acc (Number a # t # rest) = Some acc"
| "sum_value F acc (Operator c # Operator d # rest) = Some acc"
  by pat_completeness auto
termination
proof -
  have shorter: "length (snd (term_value F a ts)) \<le> length ts" for F :: "'f farith" and a ts
    by (induction F a ts rule: term_value.induct) (auto split: option.splits)
  show ?thesis
  proof (relation "measure (\<lambda>(F, acc, ts). length ts)", goal_cases)
    case 1
    show ?case by simp
  next
    case (2 F acc c b rest x1 x2 t r)
    then have "snd (term_value F b rest) = x2" by (metis snd_conv)
    with shorter[of F b rest] show ?case by simp
  qed
qed

definition infix_value :: "'f farith \<Rightarrow> 'f token list \<Rightarrow> 'f option" where
  "infix_value F toks =
     (case toks of
        Number a # rest \<Rightarrow>
          (case term_value F a rest of
             (None, rest') \<Rightarrow> None
           | (Some t, rest') \<Rightarrow> sum_value F t rest')
      | _ \<Rightarrow> None)"

text \<open>What \<^verbatim>\<open>evaluate_full_expression\<close> is to return for an expression of value \<open>v\<close>:
  the value and the untouched state, or the sentinel and the division error.\<close>

definition outcome :: "'f farith \<Rightarrow> 'f calc \<Rightarrow> 'f option \<Rightarrow> 'f \<times> 'f calc" where
  "outcome F s v =
     (case v of Some x \<Rightarrow> (x, s) | None \<Rightarrow> (fl_const F 0, set_error ''Err: Div Zero'' s))"

text \<open>The four operator characters survive the round trip through \<^verbatim>\<open>float\<close> that
  \<^verbatim>\<open>push_operator_to_expr\<close> and \<^verbatim>\<open>evaluate_full_expression\<close> put them through.\<close>

definition char_roundtrip :: "'f farith \<Rightarrow> bool" where
  "char_roundtrip F \<longleftrightarrow>
     fl_to_char F (fl_of_char F CHR ''+'') = CHR ''+''
     \<and> fl_to_char F (fl_of_char F CHR ''-'') = CHR ''-''
     \<and> fl_to_char F (fl_of_char F CHR ''*'') = CHR ''*''
     \<and> fl_to_char F (fl_of_char F CHR ''/'') = CHR ''/''"

text \<open>The state of the evaluator tests: the tokens stored by \<open>setup_expression\<close>.\<close>

definition load_tokens :: "'f farith \<Rightarrow> 'f token list \<Rightarrow> 'f calc \<Rightarrow> 'f calc" where
  "load_tokens F toks s =
     setup_expression (map (fst \<circ> encode F) toks) (map (snd \<circ> encode F) toks) s"

subsection \<open>Auxiliary notions for the proof\<close>

text \<open>The part of \<^verbatim>\<open>evaluate_full_expression\<close> after its guards, started from given
  stacks.\<close>

definition run_stacks ::
  "'f farith \<Rightarrow> (char \<times> 'f) list \<Rightarrow> 'f list \<Rightarrow> char list \<Rightarrow> 'f calc \<Rightarrow> 'f \<times> 'f calc" where
  "run_stacks F toks vals ops s =
     (case scan_tokens F toks vals ops s of
        Inl s' \<Rightarrow> (fl_const F 0, s')
      | Inr (vals, ops, s1) \<Rightarrow>
          (case drain_ops F vals ops s1 of
             Inl s' \<Rightarrow> (fl_const F 0, s')
           | Inr (vals', s2) \<Rightarrow>
               if length vals' \<noteq> 1 then (fl_const F 0, set_error ''Err: Syntax'' s2)
               else (hd vals', s2)))"

text \<open>Below the term being read, the stacks are empty or hold one sum and one additive
  operator.\<close>

fun base_vals :: "('f \<times> char) option \<Rightarrow> 'f list" where
  "base_vals None = []"
| "base_vals (Some (acc, c)) = [acc]"

fun base_ops :: "('f \<times> char) option \<Rightarrow> char list" where
  "base_ops None = []"
| "base_ops (Some (acc, c)) = [c]"

fun base_ok :: "('f \<times> char) option \<Rightarrow> bool" where
  "base_ok None \<longleftrightarrow> True"
| "base_ok (Some (acc, c)) \<longleftrightarrow> is_add_op c"

definition pending_value ::
  "'f farith \<Rightarrow> ('f \<times> char) option \<Rightarrow> 'f \<Rightarrow> 'f token list \<Rightarrow> 'f option" where
  "pending_value F base t rest =
     (case term_value F t rest of
        (None, rest') \<Rightarrow> None
      | (Some t', rest') \<Rightarrow>
          (case base of
             None \<Rightarrow> sum_value F t' rest'
           | Some (acc, c) \<Rightarrow>
               (case apply_infix F c acc t' of
                  None \<Rightarrow> None
                | Some r \<Rightarrow> sum_value F r rest')))"

section \<open>Concrete inputs\<close>

definition div_zero_state :: "f32 calc" where
  "div_zero_state = set_error ''Err: Div Zero'' (init_calc b32)"

definition later_ops :: "f32 calc_op list" where
  "later_ops =
     [SetError ''Err: Syntax'', PushOperand (Fin 1), PushOperator CHR ''+'',
      AddToExpression ''1+'', ParseNumber, Evaluate, SetError ''Err: Stack'']"

definition full_buffer :: "f32 calc" where
  "full_buffer = run_pushes b32 (replicate MAX_TOKENS (Number (Fin 1))) (init_calc b32)"

definition too_many :: "f32 token list" where
  "too_many = concat (replicate 25 [Number (Fin 1), Operator CHR ''+'']) @ [Number (Fin 1)]"

definition single_seven :: "f32 calc" where
  "single_seven = load_tokens b32 [Number (Fin 7)] (init_calc b32)"

definition trailing_op :: "f32 calc" where
  "trailing_op =
     load_tokens b32 [Number (Fin 5), Operator CHR ''*'', Operator CHR ''+''] (init_calc b32)"

definition lone_op :: "f32 calc" where
  "lone_op = load_tokens b32 [Operator CHR ''-''] (init_calc b32)"

definition one_by_zero :: "f32 calc" where
  "one_by_zero =
     load_tokens b32 [Number (Fin 1), Operator CHR ''/'', Number (Fin 0)] (init_calc b32)"

definition two_plus_three_times_four :: "f32 token list" where
  "two_plus_three_times_four =
     [Number (Fin 2), Operator CHR ''+'', Number (Fin 3), Operator CHR ''*'', Number (Fin 4)]"

definition two_times_three_plus_four :: "f32 token list" where
  "two_times_three_plus_four =
     [Number (Fin 2), Operator CHR ''*'', Number (Fin 3), Operator CHR ''+'', Number (Fin 4)]"

definition ten_minus_two_plus_three :: "f32 token list" where
  "ten_minus_two_plus_three =
     [Number (Fin 10), Operator CHR ''-'', Number (Fin 2), Operator CHR ''+'', Number (Fin 3)]"

definition mixed_expression :: "f32 token list" where
  "mixed_expression =
     [Number (Fin 8), Operator CHR ''-'', Number (Fin 6), Operator CHR ''/'', Number (Fin 3),
      Operator CHR ''/'', Number (Fin 2), Operator CHR ''*'', Number (Fin 4),
      Operator CHR ''+'', Number (Fin 1)]"

definition late_zero_divisor :: "f32 token list" where
  "late_zero_divisor =
     [Number (Fin 1), Operator CHR ''+'', Number (Fin 2), Operator CHR ''/'', Number (Fin 0),
      Operator CHR ''-'', Number (Fin 3)]"

section \<open>The value of a numeric entry\<close>

text \<open>
  The reference against which the parser is checked, written from the specification. An
  entry is an optional leading \<open>-\<close> followed by digits with at most one \<open>.\<close>.
  \<open>entry_value\<close> is the accumulation the specification describes, in the float
  arithmetic: \<open>acc = acc * 10 + digit\<close> before the point, then
  \<open>value += digit * multiplier; multiplier *= 0.1\<close> from the multiplier 0.1 on, negated
  under a leading \<open>-\<close>. \<open>decimal_value\<close> is the rational number the entry denotes.
\<close>

definition entry_body :: "string \<Rightarrow> string" where
  "entry_body cs = (if cs \<noteq> [] \<and> hd cs = CHR ''-'' then tl cs else cs)"

definition numeric_entry :: "string \<Rightarrow> bool" where
  "numeric_entry cs \<longleftrightarrow>
     (\<forall>c \<in> set (entry_body cs). is_digit c \<or> c = CHR ''.'')
     \<and> count_list (entry_body cs) CHR ''.'' \<le> 1"

definition int_step :: "'f farith \<Rightarrow> 'f \<Rightarrow> char \<Rightarrow> 'f" where
  "int_step F acc c = fl_add F (fl_mul F acc (fl_const F 10)) (fl_const F (of_nat (digit_of c)))"

definition frac_step :: "'f farith \<Rightarrow> 'f \<times> 'f \<Rightarrow> char \<Rightarrow> 'f \<times> 'f" where
  "frac_step F vm c =
     (fl_add F (fst vm) (fl_mul F (fl_const F (of_nat (digit_of c))) (snd vm)),
      fl_mul F (snd vm) (fl_const F (1 / 10)))"

definition entry_value :: "'f farith \<Rightarrow> string \<Rightarrow> 'f" where
  "entry_value F cs =
     (let body = entry_body cs;
          int_digits = takeWhile (\<lambda>c. c \<noteq> CHR ''.'') body;
          frac_digits = drop 1 (dropWhile (\<lambda>c. c \<noteq> CHR ''.'') body);
          acc = foldl (int_step F) (fl_const F 0) int_digits;
          v = fst (foldl (frac_step F) (acc, fl_const F (1 / 10)) frac_digits)
      in if cs \<noteq> [] \<and> hd cs = CHR ''-'' then fl_neg F v else v)"

definition digits_value :: "string \<Rightarrow> nat" where
  "digits_value ds = foldl (\<lambda>n c. 10 * n + digit_of c) 0 ds"

definition decimal_value :: "string \<Rightarrow> rat" where
  "decimal_value cs =
     (let body = entry_body cs;
          int_digits = takeWhile (\<lambda>c. c \<noteq> CHR ''.'') body;
          frac_digits = drop 1 (dropWhile (\<lambda>c. c \<noteq> CHR ''.'') body);
          v = of_nat (digits_value int_digits)
              + of_nat (digits_value frac_digits) / 10 ^ length frac_digits
      in if cs \<noteq> [] \<and> hd cs = CHR ''-'' then - v else v)"

text \<open>A finite float at a distance below \<open>eps\<close> from a rational.\<close>

fun close_to :: "f32 \<Rightarrow> rat \<Rightarrow> rat \<Rightarrow> bool" where
  "close_to (Fin r) q eps \<longleftrightarrow> \<bar>r - q\<bar> < eps"
| "close_to _ q eps \<longleftrightarrow> False"

text \<open>The state of the parser tests: the entry stored by \<open>set_entry\<close> in the initial
  state.\<close>

definition entry :: "string \<Rightarrow> f32 calc" where
  "entry cs = set_entry cs (init_calc b32)"

section \<open>Session loop\<close>

text \<open>The key codes of logic.h, as \<^verbatim>\<open>GetKeyPressed\<close> returns them.\<close>

definition KEY_0 :: nat where "KEY_0 = 0"
definition KEY_9 :: nat where "KEY_9 = 9"
definition KEY_PLUS :: nat where "KEY_PLUS = 10"
definition KEY_MINUS :: nat where "KEY_MINUS = 11"
definition KEY_MULTIPLY :: nat where "KEY_MULTIPLY = 12"
definition KEY_DIVIDE :: nat where "KEY_DIVIDE = 13"
definition KEY_EQUALS :: nat where "KEY_EQUALS = 14"
definition KEY_DECIMAL :: nat where "KEY_DECIMAL = 15"
definition KEY_NONE :: nat where "KEY_NONE = 255"

text \<open>
  The state of \<^verbatim>\<open>RunCalculatorLogic\<close>: the globals, the three local flags, and the two
  lines that the display shows. Every display update of the loop clears the display,
  writes line 1, moves to line 2 and writes line 2, so the display is the pair of the
  strings last written. Delays are not modelled.
\<close>

record 'f session =
  globals :: "'f calc"
  calculation_has_ended :: bool
  decimal_point_entered :: bool
  last_key_was_operator :: bool
  lcd :: "string \<times> string"

definition update_lcd_display_content :: "'f calc \<Rightarrow> string \<times> string" where
  "update_lcd_display_content g =
     (let start_pos = (if LCD_LINE_LEN < expression_index g
                       then expression_index g - LCD_LINE_LEN else 0);
          line1 = (if 0 < expression_index g
                   then take LCD_LINE_LEN (c_str (drop start_pos (expression_str g))) else []);
          line2 = (if 0 < current_num_index g
                   then take LCD_LINE_LEN (c_str (current_num_str g)) else [])
      in (line1, line2))"

definition show_input :: "'f session \<Rightarrow> 'f session" where
  "show_input ss = ss\<lparr>lcd := update_lcd_display_content (globals ss)\<rparr>"

definition show_error :: "'f session \<Rightarrow> 'f session" where
  "show_error ss = ss\<lparr>lcd := (c_str (error_message (globals ss)), [])\<rparr>"

text \<open>\<^verbatim>\<open>current_num_str[current_num_index++] = c; current_num_str[current_num_index] = '\0'\<close>\<close>

definition append_char :: "char \<Rightarrow> 'f calc \<Rightarrow> 'f calc" where
  "append_char c g =
     g\<lparr>current_num_str := (current_num_str g)[current_num_index g := c,
                                                 current_num_index g + 1 := NUL],
       current_num_index := current_num_index g + 1\<rparr>"

text \<open>\<^verbatim>\<open>current_num_index = 0; memset(current_num_str, 0, sizeof(current_num_str))\<close>\<close>

definition reset_entry :: "'f calc \<Rightarrow> 'f calc" where
  "reset_entry g =
     g\<lparr>current_num_index := 0,
       current_num_str := replicate (length (current_num_str g)) NUL\<rparr>"

text \<open>Parse the pending entry and, if that raised no error, push it and add its text to
  the history: the block shared by the operator keys and the equals key.\<close>

definition commit_entry :: "'f farith \<Rightarrow> 'f calc \<Rightarrow> 'f calc" where
  "commit_entry F g =
     (case parse_current_input_number F g of
        (num, g1) \<Rightarrow>
          if \<not> calculator_error g1
          then add_to_expression_string (current_num_str g1) (push_operand_to_expr num g1)
          else g1)"

definition digit_key :: "nat \<Rightarrow> 'f session \<Rightarrow> 'f session" where
  "digit_key current_key ss =
     (let g = globals ss
      in if current_num_index g < LCD_LINE_LEN
         then ss\<lparr>globals := append_char (char_of (of_char CHR ''0'' + current_key)) g,
                 last_key_was_operator := False\<rparr>
         else ss\<lparr>globals := set_error ''Err: Num Len'' g\<rparr>)"

definition decimal_key :: "'f session \<Rightarrow> 'f session" where
  "decimal_key ss =
     (let g = globals ss
      in if \<not> decimal_point_entered ss \<and> current_num_index g < LCD_LINE_LEN - 1
         then ss\<lparr>globals :=
                   append_char CHR ''.''
                     (if current_num_index g = 0
                      then g\<lparr>current_num_str := (current_num_str g)[0 := CHR ''0''],
                             current_num_index := 1\<rparr>
                      else g),
                 decimal_point_entered := True,
                 last_key_was_operator := False\<rparr>
         else if decimal_point_entered ss
         then ss\<lparr>globals := set_error ''Err: Syntax'' g\<rparr>
         else ss\<lparr>globals := set_error ''Err: Num Len'' g\<rparr>)"

definition operator_key :: "'f farith \<Rightarrow> nat \<Rightarrow> 'f session \<Rightarrow> 'f session" where
  "operator_key F current_key ss =
     (let g = globals ss;
          selected_op_char = ''+-*/'' ! (current_key - KEY_PLUS)
      in if selected_op_char = CHR ''-'' \<and> (expr_len g = 0 \<or> last_key_was_operator ss)
            \<and> current_num_index g = 0
         then
           (if current_num_index g < LCD_LINE_LEN
            then ss\<lparr>globals := append_char CHR ''-'' g, last_key_was_operator := False\<rparr>
            else ss\<lparr>globals := set_error ''Err: Num Len'' g\<rparr>)
         else
           let ss1 =
                 (if 0 < current_num_index g
                  then ss\<lparr>globals := reset_entry (commit_entry F g),
                          decimal_point_entered := False\<rparr>
                  else if expr_len g = 0
                          \<or> (expr_type g ! (expr_len g - 1) = CHR ''O''
                              \<and> \<not> last_key_was_operator ss)
                  then (if selected_op_char \<noteq> CHR ''+''
                        then ss\<lparr>globals := set_error ''Err: Syntax'' g\<rparr> else ss)
                  else ss)
           in if \<not> calculator_error (globals ss1)
              then ss1\<lparr>globals := push_operator_to_expr F selected_op_char (globals ss1),
                       last_key_was_operator := True\<rparr>
              else ss1)"

text \<open>The equals key up to the formatting of the result: the value to display and the
  globals after parsing, the trailing-operator check, the evaluation and the length check
  of the formatted result.\<close>

definition equals_result :: "'f farith \<Rightarrow> 'f calc \<Rightarrow> 'f \<times> 'f calc" where
  "equals_result F g =
     (let g1 = (if 0 < current_num_index g \<and> \<not> calculator_error g
                then commit_entry F g else g);
          g2 = (if current_num_index g1 = 0 \<and> 0 < expr_len g1
                   \<and> expr_type g1 ! (expr_len g1 - 1) = CHR ''O'' \<and> \<not> calculator_error g1
                then set_error ''Err: Syntax'' g1 else g1);
          (final_result, g3) =
             (if \<not> calculator_error g2 then evaluate_full_expression F g2
              else (fl_const F 0, g2));
          g4 = (if \<not> calculator_error g3 \<and> LCD_LINE_LEN < length (fl_format F final_result)
                then set_error ''Err: Display'' g3 else g3)
      in (final_result, g4))"

definition equals_key :: "'f farith \<Rightarrow> 'f session \<Rightarrow> 'f session" where
  "equals_key F ss =
     (case equals_result F (globals ss) of
        (final_result, g4) \<Rightarrow>
          ss\<lparr>globals := reset_entry g4,
             lcd := (if calculator_error g4 then c_str (error_message g4)
                     else fl_format F final_result, []),
             calculation_has_ended := True,
             decimal_point_entered := False\<rparr>)"

definition process_key :: "'f farith \<Rightarrow> nat \<Rightarrow> 'f session \<Rightarrow> 'f session" where
  "process_key F current_key ss =
     (if KEY_0 \<le> current_key \<and> current_key \<le> KEY_9 then digit_key current_key ss
      else if current_key = KEY_DECIMAL then decimal_key ss
      else if KEY_PLUS \<le> current_key \<and> current_key \<le> KEY_DIVIDE
        then operator_key F current_key ss
      else if current_key = KEY_EQUALS then equals_key F ss
      else ss)"

text \<open>The end of the loop body, after a key was processed.\<close>

definition after_key :: "'f session \<Rightarrow> 'f session" where
  "after_key ss =
     (if \<not> calculation_has_ended ss
      then (if calculator_error (globals ss)
            then (show_error ss)\<lparr>calculation_has_ended := True\<rparr>
            else show_input ss)
      else ss)"

text \<open>The loop body from the block commented \<^verbatim>\<open>State 2\<close> on.\<close>

definition input_states :: "'f farith \<Rightarrow> nat \<Rightarrow> 'f session \<Rightarrow> 'f session" where
  "input_states F current_key ss =
     (if calculator_error (globals ss) \<and> \<not> calculation_has_ended ss
      then (if current_key = KEY_NONE then ss
            else (show_error ss)\<lparr>calculation_has_ended := True\<rparr>)
      else if current_key = KEY_NONE then ss
      else after_key (process_key F current_key ss))"

text \<open>One iteration of the \<^verbatim>\<open>while (true)\<close> loop of \<^verbatim>\<open>RunCalculatorLogic\<close>, for the
  key that \<^verbatim>\<open>GetKeyPressed\<close> returned.\<close>

definition loop_iteration :: "'f farith \<Rightarrow> nat \<Rightarrow> 'f session \<Rightarrow> 'f session" where
  "loop_iteration F current_key ss =
     (if calculation_has_ended ss then
        (if current_key \<noteq> KEY_NONE then
           let error_was_being_displayed = calculator_error (globals ss);
               ss1 = ss\<lparr>globals := clear_all_state (globals ss),
                        calculation_has_ended := False,
                        decimal_point_entered := False,
                        last_key_was_operator := False\<rparr>
           in if current_key = KEY_EQUALS \<and> error_was_being_displayed
              then show_input ss1
              else input_states F current_key ss1
         else ss)
      else input_states F current_key ss)"

text \<open>The session when the loop is entered: the state cleared, the flags false, the
  input display shown.\<close>

definition start_session :: "'f farith \<Rightarrow> 'f session" where
  "start_session F =
     show_input
       \<lparr>globals = clear_all_state (init_calc F),
        calculation_has_ended = False,
        decimal_point_entered = False,
        last_key_was_operator = False,
        lcd = ([], [])\<rparr>"

definition press :: "'f farith \<Rightarrow> nat list \<Rightarrow> 'f session \<Rightarrow> 'f session" where
  "press F keys ss = foldl (\<lambda>ss k. loop_iteration F k ss) ss keys"

section \<open>Concrete sessions\<close>

text \<open>The session after the keys \<open>5\<close> and \<open>+\<close>.\<close>

definition five_plus :: "f32 session" where
  "five_plus = press b32 [5, KEY_PLUS] (start_session b32)"

text \<open>The session after the key \<open>*\<close> at the start of the loop.\<close>

definition syntax_shown :: "f32 session" where
  "syntax_shown = loop_iteration b32 KEY_MULTIPLY (start_session b32)"

text \<open>The session after sixteen presses of the key \<open>1\<close>: the pending entry is full.\<close>

definition sixteen_digits :: "f32 session" where
  "sixteen_digits = press b32 (replicate 16 1) (start_session b32)"

section \<open>The assertions of test_logic.c\<close>

text \<open>\<^verbatim>\<open>ASSERT_EQUAL_FLOAT(expected, actual, tolerance)\<close> passes unless
  \<^verbatim>\<open>fabsf(expected - actual) > tolerance\<close>.\<close>

definition ASSERT_EQUAL_FLOAT :: "f32 \<Rightarrow> f32 \<Rightarrow> f32 \<Rightarrow> bool" where
  "ASSERT_EQUAL_FLOAT expected actual tolerance \<longleftrightarrow>
     \<not> f32_lt tolerance (f32_abs (f32_sub expected actual))"

text \<open>A parser test: \<^verbatim>\<open>TEST_SETUP\<close>, the entry set-up, the call.\<close>

definition parse_test :: "string \<Rightarrow> f32 \<times> f32 calc" where
  "parse_test cs = parse_current_input_number b32 (set_entry cs (clear_all_state (init_calc b32)))"

text \<open>An evaluator test: \<^verbatim>\<open>setup_expression\<close>, the call.\<close>

definition eval_test :: "string \<Rightarrow> f32 list \<Rightarrow> f32 \<times> f32 calc" where
  "eval_test types data = evaluate_full_expression b32 (setup_expression types data (init_calc b32))"

text \<open>The float of a literal, the tolerance of the tests and the stored message.\<close>

definition lit :: "rat \<Rightarrow> f32" where
  "lit q = round_f32 q"

definition tol :: f32 where
  "tol = round_f32 (1 / 10 ^ 6)"

definition message_of :: "f32 \<times> f32 calc \<Rightarrow> string" where
  "message_of r = c_str (error_message (snd r))"

definition passes_with :: "f32 \<times> f32 calc \<Rightarrow> rat \<Rightarrow> bool" where
  "passes_with r expected \<longleftrightarrow>
     ASSERT_EQUAL_FLOAT (lit expected) (fst r) tol \<and> \<not> calculator_error (snd r)"

definition fails_with :: "f32 \<times> f32 calc \<Rightarrow> string \<Rightarrow> bool" where
  "fails_with r message \<longleftrightarrow> calculator_error (snd r) \<and> message_of r = message"

text \<open>The loop of \<^verbatim>\<open>test_eval_error_expr_long_push\<close>: operand \<open>i\<close>, then \<open>+\<close>, for
  \<open>i\<close> from 0, until an error is set.\<close>

definition long_push :: "f32 token list" where
  "long_push =
     concat (map (\<lambda>i. [Number (lit (of_nat i)), Operator CHR ''+'']) [0 ..< 25])
     @ [Number (lit 25)]"

section \<open>Properties of the error state\<close>

lemma set_error_active: "calculator_error s \<Longrightarrow> set_error m s = s"
  by (simp add: set_error_def)

lemma set_error_sets: "calculator_error (set_error m s)"
  by (simp add: set_error_def)

lemma set_error_frame:
  "expr_type (set_error m s) = expr_type s"
  "expr_data (set_error m s) = expr_data s"
  "expr_len (set_error m s) = expr_len s"
  "expression_str (set_error m s) = expression_str s"
  "expression_index (set_error m s) = expression_index s"
  "current_num_str (set_error m s) = current_num_str s"
  "current_num_index (set_error m s) = current_num_index s"
  by (simp_all add: set_error_def)

lemma c_str_no_NUL: "NUL \<notin> set (c_str m)"
  unfolding c_str_def by (induction m) auto

lemma c_str_append_NUL: "NUL \<notin> set xs \<Longrightarrow> c_str (xs @ NUL # ys) = xs"
  unfolding c_str_def by (induction xs) auto

lemma error_buffer_shape:
  assumes "length old = 17"
  shows "(strncpy old m 16)[16 := NUL] = take 16 (c_str m @ replicate 16 NUL) @ [NUL]"
proof -
  have "length (drop 16 old) = 1" using assms by simp
  then obtain x where x: "drop 16 old = [x]"
    by (cases "drop 16 old") auto
  have len: "length (take 16 (c_str m @ replicate 16 NUL)) = 16" by simp
  show ?thesis
    unfolding strncpy_def x
    using len by (simp add: list_update_append del: take_append)
qed

lemma c_str_padded:
  "c_str (take 16 (c_str m @ replicate 16 NUL) @ [NUL]) = take 16 (c_str m)"
proof (cases "16 \<le> length (c_str m)")
  case True
  then have "take 16 (c_str m @ replicate 16 NUL) = take 16 (c_str m)" by simp
  moreover have "NUL \<notin> set (take 16 (c_str m))"
    using c_str_no_NUL by (metis in_set_takeD)
  ultimately show ?thesis using c_str_append_NUL by metis
next
  case False
  then have "take 16 (c_str m @ replicate 16 NUL) @ [NUL]
      = c_str m @ NUL # (replicate (15 - length (c_str m)) NUL @ [NUL])"
    by (simp add: replicate_Suc [symmetric] Suc_diff_le del: replicate_Suc)
  then show ?thesis using False c_str_append_NUL c_str_no_NUL by (metis nat_le_linear take_all)
qed

lemma set_error_fresh:
  assumes "\<not> calculator_error s" "length (error_message s) = ERROR_MSG_LEN"
  shows "calculator_error (set_error m s)"
    and "c_str (error_message (set_error m s)) = take 16 (c_str m)"
    and "length (error_message (set_error m s)) = ERROR_MSG_LEN"
    and "error_message (set_error m s) ! 16 = NUL"
proof -
  let ?pre = "take 16 (c_str m @ replicate 16 NUL)"
  have len: "length ?pre = 16" by simp
  have buf: "error_message (set_error m s) = ?pre @ [NUL]"
    using assms error_buffer_shape[of "error_message s" m]
    by (simp add: set_error_def ERROR_MSG_LEN_def)
  show "calculator_error (set_error m s)"
    by (rule set_error_sets)
  show "c_str (error_message (set_error m s)) = take 16 (c_str m)"
    unfolding buf by (rule c_str_padded)
  show "length (error_message (set_error m s)) = ERROR_MSG_LEN"
    unfolding buf using len by (simp add: ERROR_MSG_LEN_def del: take_append)
  show "error_message (set_error m s) ! 16 = NUL"
    unfolding buf using nth_append_length[of ?pre NUL "[]"] len by (simp del: take_append)
qed

lemma syntax_message:
  assumes "\<not> calculator_error g" "length (error_message g) = ERROR_MSG_LEN"
  shows "c_str (error_message (set_error ''Err: Syntax'' g)) = ''Err: Syntax''"
proof -
  have "c_str (error_message (set_error ''Err: Syntax'' g)) = take 16 (c_str ''Err: Syntax'')"
    using set_error_fresh(2)[OF assms] .
  then show ?thesis by (simp add: c_str_def NUL_def)
qed

lemma parse_digits_state:
  "parse_digits F cs r m d s = Inl s' \<Longrightarrow> s' = set_error ''Err: Syntax'' s"
  by (induction cs arbitrary: r m d) (auto split: if_splits)

lemma parse_state:
  "snd (parse_current_input_number F s) = s
   \<or> snd (parse_current_input_number F s) = set_error ''Err: Syntax'' s"
  by (auto simp: parse_current_input_number_def Let_def split: sum.splits dest: parse_digits_state)

lemma run_op_active:
  assumes "calculator_error s"
  shows "calculator_error (run_op F op s) \<and> error_message (run_op F op s) = error_message s"
proof (cases op)
  case ParseNumber
  then show ?thesis using assms parse_state[of F s] by (auto simp: set_error_active)
next
  case Evaluate
  then show ?thesis using assms by (simp add: evaluate_full_expression_def)
qed (use assms in \<open>auto simp: set_error_active push_operand_to_expr_def push_operator_to_expr_def
     add_to_expression_string_def Let_def\<close>)

lemma run_ops_active:
  "calculator_error s \<Longrightarrow>
   calculator_error (run_ops F ops s) \<and> error_message (run_ops F ops s) = error_message s"
  unfolding run_ops_def
proof (induction ops arbitrary: s)
  case Nil
  then show ?case by simp
next
  case (Cons op ops)
  from run_op_active[OF Cons.prems, of F op]
  have a: "calculator_error (run_op F op s)" and m: "error_message (run_op F op s) = error_message s"
    by simp_all
  from Cons.IH[OF a] m show ?case by simp
qed

lemma loop_iteration_active:
  assumes "calculator_error (globals ss)" "calculation_has_ended ss \<longrightarrow> key = KEY_NONE"
  shows "calculator_error (globals (loop_iteration F key ss))
         \<and> error_message (globals (loop_iteration F key ss)) = error_message (globals ss)"
  using assms
  by (cases "calculation_has_ended ss"; cases "key = KEY_NONE")
     (simp_all add: loop_iteration_def input_states_def show_error_def)

text \<open>
  Claim C4 (first error wins). While the error flag is set, \<open>set_error\<close> changes nothing,
  and no sequence of calls of the functions of logic.c other than \<open>clear_all_state\<close>
  changes the flag or the stored message; neither does an iteration of the session loop,
  unless it is the one that clears the whole state (a key pressed while the error is
  shown). When the flag is clear, \<open>set_error m\<close> sets it and stores \<open>m\<close> cut to the
  16 characters that the buffer of \<open>ERROR_MSG_LEN\<close> cells holds, with NUL in the last
  cell.
\<close>

theorem first_error_wins:
  "(calculator_error s \<longrightarrow> set_error m s = s)
   \<and> (calculator_error s \<longrightarrow>
        calculator_error (run_ops F ops s) \<and> error_message (run_ops F ops s) = error_message s)
   \<and> (calculator_error (globals ss) \<and> (calculation_has_ended ss \<longrightarrow> key = KEY_NONE) \<longrightarrow>
        calculator_error (globals (loop_iteration F key ss))
        \<and> error_message (globals (loop_iteration F key ss)) = error_message (globals ss))
   \<and> (\<not> calculator_error s \<and> length (error_message s) = ERROR_MSG_LEN \<longrightarrow>
        calculator_error (set_error m s)
        \<and> c_str (error_message (set_error m s)) = take (ERROR_MSG_LEN - 1) (c_str m)
        \<and> length (error_message (set_error m s)) = ERROR_MSG_LEN
        \<and> error_message (set_error m s) ! (ERROR_MSG_LEN - 1) = NUL)"
  using set_error_active[of s m] run_ops_active[of s F ops] set_error_fresh[of s m]
    loop_iteration_active[of ss key F]
  by (simp add: ERROR_MSG_LEN_def)

theorem first_error_wins_witness:
  "calculator_error div_zero_state
   \<and> set_error ''Err: Syntax'' div_zero_state = div_zero_state
   \<and> calculator_error (run_ops b32 later_ops div_zero_state)
   \<and> error_message (run_ops b32 later_ops div_zero_state) = error_message div_zero_state
   \<and> calculator_error (globals syntax_shown)
   \<and> calculation_has_ended syntax_shown
   \<and> error_message (globals (loop_iteration b32 KEY_NONE syntax_shown))
       = error_message (globals syntax_shown)
   \<and> \<not> calculator_error (init_calc b32)
   \<and> length (error_message (init_calc b32)) = ERROR_MSG_LEN
   \<and> c_str (error_message (set_error ''Err: Result too long to show'' (init_calc b32)))
       = ''Err: Result too ''"
proof -
  have active: "calculator_error div_zero_state"
    by code_simp
  have shown: "calculator_error (globals syntax_shown)" "calculation_has_ended syntax_shown"
    by code_simp+
  have fresh: "\<not> calculator_error (init_calc b32) \<and> length (error_message (init_calc b32)) = ERROR_MSG_LEN"
    by code_simp
  have cut: "take (ERROR_MSG_LEN - 1) (c_str ''Err: Result too long to show'') = ''Err: Result too ''"
    by code_simp
  from first_error_wins[of div_zero_state "''Err: Syntax''" b32 later_ops syntax_shown KEY_NONE]
    active shown
  have "set_error ''Err: Syntax'' div_zero_state = div_zero_state
        \<and> calculator_error (run_ops b32 later_ops div_zero_state)
        \<and> error_message (run_ops b32 later_ops div_zero_state) = error_message div_zero_state
        \<and> error_message (globals (loop_iteration b32 KEY_NONE syntax_shown))
            = error_message (globals syntax_shown)"
    by blast
  moreover
  from first_error_wins[of "init_calc b32" "''Err: Result too long to show''" b32 "[]"
      syntax_shown KEY_NONE] fresh
  have "c_str (error_message (set_error ''Err: Result too long to show'' (init_calc b32)))
        = take (ERROR_MSG_LEN - 1) (c_str ''Err: Result too long to show'')"
    by blast
  ultimately show ?thesis using active shown fresh cut by simp
qed

section \<open>Properties of the token buffer\<close>

lemma tokens_set_error: "tokens (set_error m s) = tokens s"
  by (simp add: tokens_def set_error_frame)

lemma add_to_expression_frame:
  "expr_type (add_to_expression_string str s) = expr_type s"
  "expr_data (add_to_expression_string str s) = expr_data s"
  "expr_len (add_to_expression_string str s) = expr_len s"
  "calculator_error (add_to_expression_string str s) = calculator_error s"
  "error_message (add_to_expression_string str s) = error_message s"
  "current_num_str (add_to_expression_string str s) = current_num_str s"
  "current_num_index (add_to_expression_string str s) = current_num_index s"
  by (simp_all add: add_to_expression_string_def Let_def)

lemma tokens_add_to_expression: "tokens (add_to_expression_string str s) = tokens s"
  by (simp add: tokens_def add_to_expression_frame)

lemma take_Suc_update:
  "n < length xs \<Longrightarrow> take (Suc n) (xs[n := x]) = take n xs @ [x]"
  by (simp add: take_Suc_conv_app_nth)

lemma tokens_store:
  assumes "expr_len s < length (expr_type s)" "expr_len s < length (expr_data s)"
  shows "tokens (s\<lparr>expr_type := (expr_type s)[expr_len s := t],
                   expr_data := (expr_data s)[expr_len s := d],
                   expr_len := expr_len s + 1\<rparr>) = tokens s @ [(t, d)]"
proof -
  have "zip ((expr_type s)[expr_len s := t]) ((expr_data s)[expr_len s := d])
        = (zip (expr_type s) (expr_data s))[expr_len s := (t, d)]"
    by (simp add: update_zip)
  moreover have "expr_len s < length (zip (expr_type s) (expr_data s))"
    using assms by simp
  ultimately show ?thesis
    by (simp add: tokens_def take_Suc_update)
qed

lemma do_push_active: "calculator_error s \<Longrightarrow> do_push F p s = s"
  by (cases p) (simp_all add: push_operand_to_expr_def push_operator_to_expr_def)

lemma do_push_full:
  "\<not> calculator_error s \<Longrightarrow> MAX_TOKENS \<le> expr_len s \<Longrightarrow>
   do_push F p s = set_error ''Err: Expr Long'' s"
  by (cases p) (simp_all add: push_operand_to_expr_def push_operator_to_expr_def)

lemma do_push_room:
  assumes "\<not> calculator_error s" "expr_len s < MAX_TOKENS"
    "length (expr_type s) = MAX_TOKENS" "length (expr_data s) = MAX_TOKENS"
  shows "tokens (do_push F p s) = tokens s @ [encode F p]"
    and "expr_len (do_push F p s) = expr_len s + 1"
    and "\<not> calculator_error (do_push F p s)"
    and "length (expr_type (do_push F p s)) = MAX_TOKENS"
    and "length (expr_data (do_push F p s)) = MAX_TOKENS"
    and "error_message (do_push F p s) = error_message s"
  using assms tokens_store[of s]
  by (cases p; simp add: push_operand_to_expr_def push_operator_to_expr_def
        tokens_add_to_expression add_to_expression_frame)+

lemma run_pushes_active: "calculator_error s \<Longrightarrow> run_pushes F ps s = s"
  unfolding run_pushes_def by (induction ps) (simp_all add: do_push_active)

lemma run_pushes_Cons: "run_pushes F (p # ps) s = run_pushes F ps (do_push F p s)"
  by (simp add: run_pushes_def)

lemma run_pushes_append: "run_pushes F (ps @ qs) s = run_pushes F qs (run_pushes F ps s)"
  by (simp add: run_pushes_def)

lemma run_pushes_len:
  assumes "\<not> calculator_error s" "expr_len s \<le> MAX_TOKENS"
    "length (expr_type s) = MAX_TOKENS" "length (expr_data s) = MAX_TOKENS"
  shows "expr_len (run_pushes F ps s) = min (expr_len s + length ps) MAX_TOKENS
         \<and> (calculator_error (run_pushes F ps s) \<longleftrightarrow> MAX_TOKENS < expr_len s + length ps)
         \<and> (MAX_TOKENS < expr_len s + length ps \<longrightarrow>
               run_pushes F ps s =
               set_error ''Err: Expr Long'' (run_pushes F (take (MAX_TOKENS - expr_len s) ps) s))
         \<and> (expr_len s + length ps \<le> MAX_TOKENS \<longrightarrow>
               tokens (run_pushes F ps s) = tokens s @ map (encode F) ps
               \<and> error_message (run_pushes F ps s) = error_message s)"
  using assms
proof (induction ps arbitrary: s)
  case Nil
  then show ?case by (simp add: run_pushes_def)
next
  case (Cons p ps)
  show ?case
  proof (cases "expr_len s < MAX_TOKENS")
    case True
    note room = do_push_room[OF Cons.prems(1) True Cons.prems(3,4), of F p]
    have le: "expr_len (do_push F p s) \<le> MAX_TOKENS" using room(2) True by simp
    from Cons.IH[OF room(3) le room(4,5)] room(1,2,6) True
    show ?thesis
      by (simp add: run_pushes_Cons Suc_diff_le take_Cons')
  next
    case False
    then have full: "MAX_TOKENS \<le> expr_len s" by simp
    have eq: "expr_len s = MAX_TOKENS" using full Cons.prems(2) by simp
    have d: "do_push F p s = set_error ''Err: Expr Long'' s"
      by (rule do_push_full[OF Cons.prems(1) full])
    have act: "calculator_error (set_error ''Err: Expr Long'' s)"
      by (rule set_error_sets)
    have r: "run_pushes F (p # ps) s = set_error ''Err: Expr Long'' s"
      by (simp add: run_pushes_Cons d run_pushes_active[OF act])
    have r0: "run_pushes F [] s = s"
      by (simp add: run_pushes_def)
    show ?thesis
      unfolding r using eq act by (simp add: set_error_frame r0)
  qed
qed

lemma run_pushes_bound:
  assumes "expr_len s \<le> MAX_TOKENS"
    "length (expr_type s) = MAX_TOKENS" "length (expr_data s) = MAX_TOKENS"
  shows "expr_len (run_pushes F ps s) \<le> MAX_TOKENS"
proof (cases "calculator_error s")
  case True
  then show ?thesis using assms(1) by (simp add: run_pushes_active)
next
  case False
  from run_pushes_len[OF False assms, of F ps] show ?thesis by simp
qed

lemma run_pushes_overflow:
  assumes "\<not> calculator_error s" "expr_len s = 0"
    "length (expr_type s) = MAX_TOKENS" "length (expr_data s) = MAX_TOKENS"
    "length (error_message s) = ERROR_MSG_LEN" "MAX_TOKENS < length ps"
  shows "calculator_error (run_pushes F ps s)"
    and "c_str (error_message (run_pushes F ps s)) = ''Err: Expr Long''"
    and "expr_len (run_pushes F ps s) = MAX_TOKENS"
    and "tokens (run_pushes F ps s) = map (encode F) (take MAX_TOKENS ps)"
    and "run_pushes F (ps @ qs) s = run_pushes F ps s"
proof -
  have le: "expr_len s \<le> MAX_TOKENS" using assms(2) by simp
  note all = run_pushes_len[OF assms(1) le assms(3,4), of F ps]
  note pre = run_pushes_len[OF assms(1) le assms(3,4), of F "take MAX_TOKENS ps"]
  let ?s' = "run_pushes F (take MAX_TOKENS ps) s"
  have run: "run_pushes F ps s = set_error ''Err: Expr Long'' ?s'"
    using all[THEN conjunct2, THEN conjunct2, THEN conjunct1] assms(2,6) by simp
  have fits: "expr_len s + length (take MAX_TOKENS ps) \<le> MAX_TOKENS"
    using assms(2) by simp
  have s': "\<not> calculator_error ?s'" "tokens ?s' = map (encode F) (take MAX_TOKENS ps)"
    "error_message ?s' = error_message s"
  proof -
    have t0: "tokens s = []" using assms(2) by (simp add: tokens_def)
    show "\<not> calculator_error ?s'" "tokens ?s' = map (encode F) (take MAX_TOKENS ps)"
      "error_message ?s' = error_message s"
      using pre fits t0 by simp_all
  qed
  show act: "calculator_error (run_pushes F ps s)"
    unfolding run by (rule set_error_sets)
  have "c_str (error_message (run_pushes F ps s)) = take 16 (c_str ''Err: Expr Long'')"
    unfolding run using set_error_fresh(2)[OF s'(1)] s'(3) assms(5) by simp
  then show "c_str (error_message (run_pushes F ps s)) = ''Err: Expr Long''"
    by (simp add: c_str_def NUL_def)
  show "expr_len (run_pushes F ps s) = MAX_TOKENS"
    using all[THEN conjunct1] assms(2,6) by simp
  show "tokens (run_pushes F ps s) = map (encode F) (take MAX_TOKENS ps)"
    unfolding run by (simp add: tokens_set_error s'(2))
  show "run_pushes F (ps @ qs) s = run_pushes F ps s"
    by (simp add: run_pushes_append run_pushes_active[OF act])
qed

text \<open>
  Claim C7 (bounded token buffer). \<open>push_operand_to_expr\<close> and
  \<open>push_operator_to_expr\<close> leave the state as it is when an error is active; with no
  error and \<open>expr_len = MAX_TOKENS\<close> they set the error \<^verbatim>\<open>Err: Expr Long\<close> and leave
  the buffer as it is; otherwise they append exactly one token. Hence \<open>expr_len\<close> never
  exceeds \<open>MAX_TOKENS\<close> under any sequence of pushes, and more than \<open>MAX_TOKENS\<close>
  pushes on an empty buffer set \<^verbatim>\<open>Err: Expr Long\<close>, keep the first \<open>MAX_TOKENS\<close>
  tokens, and make every further push a no-op.
\<close>

theorem push_bounded:
  "(calculator_error s \<longrightarrow>
      push_operand_to_expr x s = s \<and> push_operator_to_expr F c s = s)
   \<and> (\<not> calculator_error s \<and> expr_len s = MAX_TOKENS \<longrightarrow>
        push_operand_to_expr x s = set_error ''Err: Expr Long'' s
        \<and> push_operator_to_expr F c s = set_error ''Err: Expr Long'' s
        \<and> expr_type (set_error ''Err: Expr Long'' s) = expr_type s
        \<and> expr_data (set_error ''Err: Expr Long'' s) = expr_data s
        \<and> expr_len (set_error ''Err: Expr Long'' s) = expr_len s)
   \<and> (\<not> calculator_error s \<and> expr_len s < MAX_TOKENS
        \<and> length (expr_type s) = MAX_TOKENS \<and> length (expr_data s) = MAX_TOKENS \<longrightarrow>
        tokens (push_operand_to_expr x s) = tokens s @ [(CHR ''N'', x)]
        \<and> expr_len (push_operand_to_expr x s) = expr_len s + 1
        \<and> tokens (push_operator_to_expr F c s) = tokens s @ [(CHR ''O'', fl_of_char F c)]
        \<and> expr_len (push_operator_to_expr F c s) = expr_len s + 1)
   \<and> (expr_len s \<le> MAX_TOKENS
        \<and> length (expr_type s) = MAX_TOKENS \<and> length (expr_data s) = MAX_TOKENS \<longrightarrow>
        expr_len (run_pushes F ps s) \<le> MAX_TOKENS)
   \<and> (\<not> calculator_error s \<and> expr_len s = 0
        \<and> length (expr_type s) = MAX_TOKENS \<and> length (expr_data s) = MAX_TOKENS
        \<and> length (error_message s) = ERROR_MSG_LEN \<and> MAX_TOKENS < length ps \<longrightarrow>
        calculator_error (run_pushes F ps s)
        \<and> c_str (error_message (run_pushes F ps s)) = ''Err: Expr Long''
        \<and> expr_len (run_pushes F ps s) = MAX_TOKENS
        \<and> tokens (run_pushes F ps s) = map (encode F) (take MAX_TOKENS ps)
        \<and> run_pushes F (ps @ qs) s = run_pushes F ps s)"
proof (intro conjI impI)
  assume "calculator_error s"
  then show "push_operand_to_expr x s = s" "push_operator_to_expr F c s = s"
    using do_push_active[of s F "Number x"] do_push_active[of s F "Operator c"] by simp_all
next
  assume "\<not> calculator_error s \<and> expr_len s = MAX_TOKENS"
  then show "push_operand_to_expr x s = set_error ''Err: Expr Long'' s"
    "push_operator_to_expr F c s = set_error ''Err: Expr Long'' s"
    using do_push_full[of s F "Number x"] do_push_full[of s F "Operator c"] by simp_all
next
  assume h: "\<not> calculator_error s \<and> expr_len s < MAX_TOKENS
        \<and> length (expr_type s) = MAX_TOKENS \<and> length (expr_data s) = MAX_TOKENS"
  then have a: "\<not> calculator_error s" "expr_len s < MAX_TOKENS"
    "length (expr_type s) = MAX_TOKENS" "length (expr_data s) = MAX_TOKENS" by simp_all
  show "tokens (push_operand_to_expr x s) = tokens s @ [(CHR ''N'', x)]"
    "expr_len (push_operand_to_expr x s) = expr_len s + 1"
    using do_push_room(1,2)[OF a, of F "Number x"] by simp_all
  show "tokens (push_operator_to_expr F c s) = tokens s @ [(CHR ''O'', fl_of_char F c)]"
    "expr_len (push_operator_to_expr F c s) = expr_len s + 1"
    using do_push_room(1,2)[OF a, of F "Operator c"] by simp_all
next
  assume "expr_len s \<le> MAX_TOKENS
        \<and> length (expr_type s) = MAX_TOKENS \<and> length (expr_data s) = MAX_TOKENS"
  then show "expr_len (run_pushes F ps s) \<le> MAX_TOKENS"
    using run_pushes_bound[of s F ps] by simp
next
  assume h: "\<not> calculator_error s \<and> expr_len s = 0
        \<and> length (expr_type s) = MAX_TOKENS \<and> length (expr_data s) = MAX_TOKENS
        \<and> length (error_message s) = ERROR_MSG_LEN \<and> MAX_TOKENS < length ps"
  then have a: "\<not> calculator_error s" "expr_len s = 0"
    "length (expr_type s) = MAX_TOKENS" "length (expr_data s) = MAX_TOKENS"
    "length (error_message s) = ERROR_MSG_LEN" "MAX_TOKENS < length ps" by simp_all
  note o = run_pushes_overflow[OF a, of F]
  show "calculator_error (run_pushes F ps s)"
    "c_str (error_message (run_pushes F ps s)) = ''Err: Expr Long''"
    "expr_len (run_pushes F ps s) = MAX_TOKENS"
    "tokens (run_pushes F ps s) = map (encode F) (take MAX_TOKENS ps)"
    "run_pushes F (ps @ qs) s = run_pushes F ps s"
    by (rule o)+
qed (simp_all add: set_error_frame)

theorem push_bounded_witness:
  "calculator_error div_zero_state
   \<and> push_operand_to_expr (Fin 1) div_zero_state = div_zero_state
   \<and> push_operator_to_expr b32 CHR ''+'' div_zero_state = div_zero_state
   \<and> \<not> calculator_error full_buffer \<and> expr_len full_buffer = MAX_TOKENS
   \<and> push_operand_to_expr (Fin 1) full_buffer = set_error ''Err: Expr Long'' full_buffer
   \<and> push_operator_to_expr b32 CHR ''+'' full_buffer = set_error ''Err: Expr Long'' full_buffer
   \<and> expr_len (init_calc b32) = 0
   \<and> length (expr_type (init_calc b32)) = MAX_TOKENS
   \<and> length (expr_data (init_calc b32)) = MAX_TOKENS
   \<and> tokens (push_operand_to_expr (Fin 1) (init_calc b32))
       = tokens (init_calc b32) @ [(CHR ''N'', Fin 1)]
   \<and> tokens (push_operator_to_expr b32 CHR ''+'' (init_calc b32))
       = tokens (init_calc b32) @ [(CHR ''O'', fl_of_char b32 CHR ''+'')]
   \<and> MAX_TOKENS < length too_many
   \<and> expr_len (run_pushes b32 too_many (init_calc b32)) \<le> MAX_TOKENS
   \<and> calculator_error (run_pushes b32 too_many (init_calc b32))
   \<and> c_str (error_message (run_pushes b32 too_many (init_calc b32))) = ''Err: Expr Long''
   \<and> run_pushes b32 (too_many @ [Operator CHR ''*'']) (init_calc b32)
       = run_pushes b32 too_many (init_calc b32)"
proof -
  have active: "calculator_error div_zero_state"
    by code_simp
  have full: "\<not> calculator_error full_buffer \<and> expr_len full_buffer = MAX_TOKENS"
    by code_simp
  have init: "\<not> calculator_error (init_calc b32) \<and> expr_len (init_calc b32) = 0
      \<and> length (expr_type (init_calc b32)) = MAX_TOKENS
      \<and> length (expr_data (init_calc b32)) = MAX_TOKENS
      \<and> length (error_message (init_calc b32)) = ERROR_MSG_LEN"
    by code_simp
  have many: "MAX_TOKENS < length too_many"
    by code_simp
  have room: "expr_len (init_calc b32) < MAX_TOKENS" "expr_len (init_calc b32) \<le> MAX_TOKENS"
    using init by (simp_all add: MAX_TOKENS_def)
  note a = push_bounded[of div_zero_state "Fin 1" b32 "CHR ''+''" "[]" "[]"]
  note f = push_bounded[of full_buffer "Fin 1" b32 "CHR ''+''" "[]" "[]"]
  note i = push_bounded[of "init_calc b32" "Fin 1" b32 "CHR ''+''" too_many "[Operator CHR ''*'']"]
  from a active have "push_operand_to_expr (Fin 1) div_zero_state = div_zero_state
      \<and> push_operator_to_expr b32 CHR ''+'' div_zero_state = div_zero_state"
    by blast
  moreover from f full
  have "push_operand_to_expr (Fin 1) full_buffer = set_error ''Err: Expr Long'' full_buffer
      \<and> push_operator_to_expr b32 CHR ''+'' full_buffer = set_error ''Err: Expr Long'' full_buffer"
    by blast
  moreover from i init room many
  have "tokens (push_operand_to_expr (Fin 1) (init_calc b32))
          = tokens (init_calc b32) @ [(CHR ''N'', Fin 1)]
      \<and> tokens (push_operator_to_expr b32 CHR ''+'' (init_calc b32))
          = tokens (init_calc b32) @ [(CHR ''O'', fl_of_char b32 CHR ''+'')]
      \<and> expr_len (run_pushes b32 too_many (init_calc b32)) \<le> MAX_TOKENS
      \<and> calculator_error (run_pushes b32 too_many (init_calc b32))
      \<and> c_str (error_message (run_pushes b32 too_many (init_calc b32))) = ''Err: Expr Long''
      \<and> run_pushes b32 (too_many @ [Operator CHR ''*'']) (init_calc b32)
          = run_pushes b32 too_many (init_calc b32)"
    by blast
  ultimately show ?thesis using active full init many by blast
qed

section \<open>Properties of the evaluator\<close>

lemma execute_apply_operator_state:
  assumes "execute_apply_operator F op a b s = (r, s')"
  shows "(\<not> calculator_error s' \<longrightarrow> s' = s) \<and> (\<exists>m. calculator_error s' \<longrightarrow> s' = set_error m s)"
proof (cases "calculator_error s")
  case True
  with assms show ?thesis by (auto simp: execute_apply_operator_def set_error_active)
next
  case False
  from assms False show ?thesis
    by (auto simp: execute_apply_operator_def set_error_sets split: if_splits)
qed

lemma reduce_ops_frame:
  "loop_frame s (reduce_ops F cur vals ops s) (\<lambda>(v, os, s'). s')"
proof (induction ops arbitrary: vals)
  case Nil
  show ?case by (simp add: loop_frame_def)
next
  case (Cons op ops)
  show ?case
  proof (cases "\<exists>b a vs. vals = b # a # vs \<and> get_precedence cur \<le> get_precedence op")
    case False
    then show ?thesis
      by (cases vals; cases "tl vals") (auto simp: loop_frame_def)
  next
    case True
    then obtain b a vs where v: "vals = b # a # vs" and p: "get_precedence cur \<le> get_precedence op"
      by blast
    obtain r s1 where e: "execute_apply_operator F op a b s = (r, s1)"
      by (cases "execute_apply_operator F op a b s")
    note st = execute_apply_operator_state[OF e]
    show ?thesis
    proof (cases "calculator_error s1")
      case True
      with st v p e show ?thesis by (auto simp: loop_frame_def)
    next
      case False
      with st have "s1 = s" by simp
      with v p e False Cons.IH[of "r # vs"] show ?thesis by simp
    qed
  qed
qed

lemma drain_ops_frame:
  "loop_frame s (drain_ops F vals ops s) (\<lambda>(v, s'). s')"
proof (induction ops arbitrary: vals)
  case Nil
  show ?case by (simp add: loop_frame_def)
next
  case (Cons op ops)
  show ?case
  proof (cases "\<exists>b a vs. vals = b # a # vs")
    case False
    then show ?thesis
      by (cases vals; cases "tl vals") (auto simp: loop_frame_def)
  next
    case True
    then obtain b a vs where v: "vals = b # a # vs"
      by blast
    obtain r s1 where e: "execute_apply_operator F op a b s = (r, s1)"
      by (cases "execute_apply_operator F op a b s")
    note st = execute_apply_operator_state[OF e]
    show ?thesis
    proof (cases "calculator_error s1")
      case True
      with st v e show ?thesis by (auto simp: loop_frame_def)
    next
      case False
      with st have "s1 = s" by simp
      with v e False Cons.IH[of "r # vs"] show ?thesis by simp
    qed
  qed
qed

lemma scan_tokens_frame:
  "loop_frame s (scan_tokens F toks vals ops s) (\<lambda>(v, os, s'). s')"
proof (induction toks arbitrary: vals ops)
  case Nil
  show ?case by (simp add: loop_frame_def)
next
  case (Cons t toks)
  obtain ty d where t: "t = (ty, d)" by (cases t)
  show ?case
  proof (cases "ty = CHR ''N''")
    case True
    with t Cons.IH[of "d # vals" ops] show ?thesis
      by (auto simp: loop_frame_def)
  next
    case False
    note r = reduce_ops_frame[of s F "fl_to_char F d" vals ops]
    show ?thesis
    proof (cases "reduce_ops F (fl_to_char F d) vals ops s")
      case (Inl s')
      with r t False show ?thesis by (simp add: loop_frame_def)
    next
      case (Inr x)
      obtain v' o' s1 where x: "x = (v', o', s1)" by (cases x)
      with r Inr have "s1 = s" by (simp add: loop_frame_def)
      with t False Inr x Cons.IH[of v' "fl_to_char F d # o'"] show ?thesis
        by (auto simp: loop_frame_def)
    qed
  qed
qed

lemma evaluate_state:
  "snd (evaluate_full_expression F s) = s
   \<or> (\<exists>m. snd (evaluate_full_expression F s) = set_error m s)"
proof -
  note sc = scan_tokens_frame[of s F "tokens s" "[]" "[]"]
  show ?thesis
  proof (cases "scan_tokens F (tokens s) [] [] s")
    case (Inl s')
    with sc show ?thesis
      by (auto simp: evaluate_full_expression_def loop_frame_def)
  next
    case (Inr x)
    obtain v o' s1 where x: "x = (v, o', s1)" by (cases x)
    with sc Inr have s1: "s1 = s" by (simp add: loop_frame_def)
    note dr = drain_ops_frame[of s F v o']
    show ?thesis
    proof (cases "drain_ops F v o' s")
      case (Inl s')
      with dr Inr x s1 show ?thesis
        by (auto simp: evaluate_full_expression_def loop_frame_def)
    next
      case (Inr y)
      obtain v' s2 where y: "y = (v', s2)" by (cases y)
      with dr Inr have "s2 = s" by (simp add: loop_frame_def)
      with \<open>scan_tokens F (tokens s) [] [] s = Inr x\<close> x s1 Inr y show ?thesis
        by (auto simp: evaluate_full_expression_def)
    qed
  qed
qed

text \<open>
  Claim C10 (evaluation leaves the token buffer alone). Whatever the buffer holds and
  whether \<open>evaluate_full_expression\<close> returns a result or sets an error, \<open>expr_type\<close>,
  \<open>expr_data\<close> and \<open>expr_len\<close> are afterwards what they were, and so are the display
  history and the pending entry; only the error state can differ. The buffer is emptied
  by \<open>clear_all_state\<close>.
\<close>

theorem evaluate_keeps_buffer:
  "expr_type (snd (evaluate_full_expression F s)) = expr_type s
   \<and> expr_data (snd (evaluate_full_expression F s)) = expr_data s
   \<and> expr_len (snd (evaluate_full_expression F s)) = expr_len s
   \<and> expression_str (snd (evaluate_full_expression F s)) = expression_str s
   \<and> expression_index (snd (evaluate_full_expression F s)) = expression_index s
   \<and> current_num_str (snd (evaluate_full_expression F s)) = current_num_str s
   \<and> current_num_index (snd (evaluate_full_expression F s)) = current_num_index s
   \<and> expr_len (clear_all_state s) = 0"
  using evaluate_state[of F s] by (auto simp: set_error_frame clear_all_state_def)

text \<open>
  Claim C5 (trivial buffers). With no error active, \<open>evaluate_full_expression\<close> returns
  \<^verbatim>\<open>0.0f\<close> on an empty buffer and the token's value on a buffer of exactly one
  number, in both cases with the state as it was and the error flag still clear. On a
  buffer whose last token is an operator, a lone operator included, it returns
  \<^verbatim>\<open>0.0f\<close> whatever the other tokens are, and the state it leaves has the error flag
  set and the message \<^verbatim>\<open>Err: Syntax\<close> stored, with the token buffer as it was.
\<close>

theorem evaluate_trivial_buffers:
  "(\<not> calculator_error s \<and> expr_len s = 0 \<longrightarrow>
      evaluate_full_expression F s = (fl_const F 0, s)
      \<and> \<not> calculator_error (snd (evaluate_full_expression F s)))
   \<and> (\<not> calculator_error s \<and> expr_len s = 1 \<and> expr_type s ! 0 = CHR ''N'' \<longrightarrow>
      evaluate_full_expression F s = (expr_data s ! 0, s)
      \<and> \<not> calculator_error (snd (evaluate_full_expression F s)))
   \<and> (\<not> calculator_error s \<and> 0 < expr_len s \<and> expr_type s ! (expr_len s - 1) = CHR ''O'' \<longrightarrow>
      evaluate_full_expression F s = (fl_const F 0, set_error ''Err: Syntax'' s)
      \<and> fst (evaluate_full_expression F s) = fl_const F 0
      \<and> calculator_error (snd (evaluate_full_expression F s))
      \<and> tokens (snd (evaluate_full_expression F s)) = tokens s
      \<and> expr_len (snd (evaluate_full_expression F s)) = expr_len s)
   \<and> (\<not> calculator_error s \<and> 0 < expr_len s \<and> expr_type s ! (expr_len s - 1) = CHR ''O''
        \<and> length (error_message s) = ERROR_MSG_LEN \<longrightarrow>
      c_str (error_message (snd (evaluate_full_expression F s))) = ''Err: Syntax'')"
proof (intro conjI impI)
  assume h: "\<not> calculator_error s \<and> 0 < expr_len s
      \<and> expr_type s ! (expr_len s - 1) = CHR ''O''"
  then show e: "evaluate_full_expression F s = (fl_const F 0, set_error ''Err: Syntax'' s)"
    by (simp add: evaluate_full_expression_def)
  show "fst (evaluate_full_expression F s) = fl_const F 0"
    "calculator_error (snd (evaluate_full_expression F s))"
    "tokens (snd (evaluate_full_expression F s)) = tokens s"
    "expr_len (snd (evaluate_full_expression F s)) = expr_len s"
    unfolding e by (simp_all add: set_error_sets tokens_set_error set_error_frame)
next
  assume h: "\<not> calculator_error s \<and> 0 < expr_len s
      \<and> expr_type s ! (expr_len s - 1) = CHR ''O''
      \<and> length (error_message s) = ERROR_MSG_LEN"
  then have e: "evaluate_full_expression F s = (fl_const F 0, set_error ''Err: Syntax'' s)"
    by (simp add: evaluate_full_expression_def)
  from h show "c_str (error_message (snd (evaluate_full_expression F s))) = ''Err: Syntax''"
    unfolding e using syntax_message[of s] by simp
qed (simp_all add: evaluate_full_expression_def)

theorem evaluate_trivial_buffers_witness:
  "\<not> calculator_error (init_calc b32) \<and> expr_len (init_calc b32) = 0
   \<and> evaluate_full_expression b32 (init_calc b32) = (Fin 0, init_calc b32)
   \<and> \<not> calculator_error (snd (evaluate_full_expression b32 (init_calc b32)))
   \<and> \<not> calculator_error single_seven \<and> expr_len single_seven = 1
   \<and> expr_type single_seven ! 0 = CHR ''N''
   \<and> evaluate_full_expression b32 single_seven = (Fin 7, single_seven)
   \<and> \<not> calculator_error (snd (evaluate_full_expression b32 single_seven))
   \<and> \<not> calculator_error trailing_op \<and> 0 < expr_len trailing_op
   \<and> expr_type trailing_op ! (expr_len trailing_op - 1) = CHR ''O''
   \<and> length (error_message trailing_op) = ERROR_MSG_LEN
   \<and> fst (evaluate_full_expression b32 trailing_op) = Fin 0
   \<and> calculator_error (snd (evaluate_full_expression b32 trailing_op))
   \<and> c_str (error_message (snd (evaluate_full_expression b32 trailing_op))) = ''Err: Syntax''
   \<and> tokens (snd (evaluate_full_expression b32 trailing_op)) = tokens trailing_op
   \<and> \<not> calculator_error lone_op \<and> 0 < expr_len lone_op
   \<and> expr_type lone_op ! (expr_len lone_op - 1) = CHR ''O''
   \<and> length (error_message lone_op) = ERROR_MSG_LEN
   \<and> fst (evaluate_full_expression b32 lone_op) = Fin 0
   \<and> calculator_error (snd (evaluate_full_expression b32 lone_op))
   \<and> c_str (error_message (snd (evaluate_full_expression b32 lone_op))) = ''Err: Syntax''"
proof -
  have empty: "\<not> calculator_error (init_calc b32) \<and> expr_len (init_calc b32) = 0"
    by code_simp
  have single: "\<not> calculator_error single_seven \<and> expr_len single_seven = 1
      \<and> expr_type single_seven ! 0 = CHR ''N''"
    by code_simp
  have seven: "expr_data single_seven ! 0 = Fin 7"
    by code_simp
  have trailing: "\<not> calculator_error trailing_op \<and> 0 < expr_len trailing_op
      \<and> expr_type trailing_op ! (expr_len trailing_op - 1) = CHR ''O''
      \<and> length (error_message trailing_op) = ERROR_MSG_LEN"
    by code_simp
  have lone: "\<not> calculator_error lone_op \<and> 0 < expr_len lone_op
      \<and> expr_type lone_op ! (expr_len lone_op - 1) = CHR ''O''
      \<and> length (error_message lone_op) = ERROR_MSG_LEN"
    by code_simp
  have zero: "fl_const b32 0 = Fin 0"
    by code_simp
  from evaluate_trivial_buffers[of "init_calc b32" b32] empty
  have "evaluate_full_expression b32 (init_calc b32) = (fl_const b32 0, init_calc b32)
      \<and> \<not> calculator_error (snd (evaluate_full_expression b32 (init_calc b32)))"
    by blast
  then have c1: "evaluate_full_expression b32 (init_calc b32) = (Fin 0, init_calc b32)
      \<and> \<not> calculator_error (snd (evaluate_full_expression b32 (init_calc b32)))"
    unfolding zero .
  from evaluate_trivial_buffers[of single_seven b32] single
  have "evaluate_full_expression b32 single_seven = (expr_data single_seven ! 0, single_seven)
      \<and> \<not> calculator_error (snd (evaluate_full_expression b32 single_seven))"
    by blast
  then have c2: "evaluate_full_expression b32 single_seven = (Fin 7, single_seven)
      \<and> \<not> calculator_error (snd (evaluate_full_expression b32 single_seven))"
    unfolding seven .
  from evaluate_trivial_buffers[of trailing_op b32] trailing
  have "fst (evaluate_full_expression b32 trailing_op) = fl_const b32 0
      \<and> calculator_error (snd (evaluate_full_expression b32 trailing_op))
      \<and> c_str (error_message (snd (evaluate_full_expression b32 trailing_op))) = ''Err: Syntax''
      \<and> tokens (snd (evaluate_full_expression b32 trailing_op)) = tokens trailing_op"
    by blast
  then have c3: "fst (evaluate_full_expression b32 trailing_op) = Fin 0
      \<and> calculator_error (snd (evaluate_full_expression b32 trailing_op))
      \<and> c_str (error_message (snd (evaluate_full_expression b32 trailing_op))) = ''Err: Syntax''
      \<and> tokens (snd (evaluate_full_expression b32 trailing_op)) = tokens trailing_op"
    unfolding zero .
  from evaluate_trivial_buffers[of lone_op b32] lone
  have "fst (evaluate_full_expression b32 lone_op) = fl_const b32 0
      \<and> calculator_error (snd (evaluate_full_expression b32 lone_op))
      \<and> c_str (error_message (snd (evaluate_full_expression b32 lone_op))) = ''Err: Syntax''"
    by blast
  then have c4: "fst (evaluate_full_expression b32 lone_op) = Fin 0
      \<and> calculator_error (snd (evaluate_full_expression b32 lone_op))
      \<and> c_str (error_message (snd (evaluate_full_expression b32 lone_op))) = ''Err: Syntax''"
    unfolding zero .
  show ?thesis using empty single trailing lone c1 c2 c3 c4 by blast
qed

lemma get_precedence_le_2: "get_precedence c \<le> 2"
  by (simp add: get_precedence_def)

lemma divide_near_zero:
  "\<not> calculator_error s \<Longrightarrow> fl_lt F (fl_abs F b) (FLOAT_EPSILON F) \<Longrightarrow>
   execute_apply_operator F CHR ''/'' a b s = (fl_const F 0, set_error ''Err: Div Zero'' s)"
  by (simp add: execute_apply_operator_def)

lemma b32_epsilon: "FLOAT_EPSILON b32 = Fin (14073749 / 2 ^ 47)"
  by code_simp

lemma b32_near_zero:
  assumes "\<bar>r\<bar> < 1 / 10 ^ 7"
  shows "fl_lt b32 (fl_abs b32 (Fin r)) (FLOAT_EPSILON b32)"
proof -
  have "(1 :: rat) / 10 ^ 7 \<le> 14073749 / 2 ^ 47" by simp
  with assms have "\<bar>r\<bar> < 14073749 / 2 ^ 47" by linarith
  then show ?thesis
    unfolding b32_epsilon by (simp add: b32_def binary32_def)
qed

text \<open>
  Claim C6 (division by zero stops the evaluation). With no error active and a divisor
  \<open>b\<close> with \<^verbatim>\<open>fabsf(b) < FLOAT_EPSILON\<close>, applying \<open>/\<close> returns \<^verbatim>\<open>0.0f\<close> and sets
  \<^verbatim>\<open>Err: Div Zero\<close>; both loops of the evaluator then return at once, whatever
  operators remain on the stack, and an evaluation that starts with such a division
  returns \<^verbatim>\<open>0.0f\<close> with that error whatever follows. With no error active, \<open>+\<close>,
  \<open>-\<close> and \<open>*\<close> return the float sum, difference and product and leave the state
  as it is. In binary32 every finite divisor of magnitude below \<open>10\<^sup>-\<^sup>7\<close> passes the
  test \<^verbatim>\<open>fabsf(b) < FLOAT_EPSILON\<close>.
\<close>

theorem division_by_zero_aborts:
  "(\<not> calculator_error s \<and> fl_lt F (fl_abs F b) (FLOAT_EPSILON F) \<longrightarrow>
      execute_apply_operator F CHR ''/'' a b s = (fl_const F 0, set_error ''Err: Div Zero'' s)
      \<and> drain_ops F (b # a # vs) (CHR ''/'' # ops) s = Inl (set_error ''Err: Div Zero'' s)
      \<and> reduce_ops F cur (b # a # vs) (CHR ''/'' # ops) s = Inl (set_error ''Err: Div Zero'' s))
   \<and> (\<not> calculator_error s \<and> fl_lt F (fl_abs F b) (FLOAT_EPSILON F)
        \<and> tokens s = (CHR ''N'', a) # (t, d) # (CHR ''N'', b) # rest
        \<and> t \<noteq> CHR ''N'' \<and> fl_to_char F d = CHR ''/''
        \<and> (rest = [] \<or> fst (hd rest) \<noteq> CHR ''N'')
        \<and> expr_type s ! (expr_len s - 1) \<noteq> CHR ''O'' \<longrightarrow>
      evaluate_full_expression F s = (fl_const F 0, set_error ''Err: Div Zero'' s))
   \<and> (\<not> calculator_error s \<longrightarrow>
      execute_apply_operator F CHR ''+'' a b s = (fl_add F a b, s)
      \<and> execute_apply_operator F CHR ''-'' a b s = (fl_sub F a b, s)
      \<and> execute_apply_operator F CHR ''*'' a b s = (fl_mul F a b, s))
   \<and> (\<bar>r\<bar> < 1 / 10 ^ 7 \<longrightarrow> fl_lt b32 (fl_abs b32 (Fin r)) (FLOAT_EPSILON b32))"
proof (intro conjI impI)
  assume "\<bar>r\<bar> < 1 / 10 ^ 7"
  then show "fl_lt b32 (fl_abs b32 (Fin r)) (FLOAT_EPSILON b32)"
    by (rule b32_near_zero)
next
  assume h: "\<not> calculator_error s \<and> fl_lt F (fl_abs F b) (FLOAT_EPSILON F)"
  then show e: "execute_apply_operator F CHR ''/'' a b s = (fl_const F 0, set_error ''Err: Div Zero'' s)"
    by (simp add: divide_near_zero)
  show "drain_ops F (b # a # vs) (CHR ''/'' # ops) s = Inl (set_error ''Err: Div Zero'' s)"
    by (simp add: e set_error_sets)
  show "reduce_ops F cur (b # a # vs) (CHR ''/'' # ops) s = Inl (set_error ''Err: Div Zero'' s)"
    using get_precedence_le_2[of cur] by (simp add: e set_error_sets get_precedence_def)
next
  assume h: "\<not> calculator_error s \<and> fl_lt F (fl_abs F b) (FLOAT_EPSILON F)
        \<and> tokens s = (CHR ''N'', a) # (t, d) # (CHR ''N'', b) # rest
        \<and> t \<noteq> CHR ''N'' \<and> fl_to_char F d = CHR ''/''
        \<and> (rest = [] \<or> fst (hd rest) \<noteq> CHR ''N'')
        \<and> expr_type s ! (expr_len s - 1) \<noteq> CHR ''O''"
  then have e: "execute_apply_operator F CHR ''/'' a b s = (fl_const F 0, set_error ''Err: Div Zero'' s)"
    by (simp add: divide_near_zero)
  have "length (tokens s) \<le> expr_len s" by (simp add: tokens_def)
  with h have len: "3 \<le> expr_len s" by simp
  have sc: "scan_tokens F (tokens s) [] [] s
            = (if rest = [] then Inr ([b, a], [CHR ''/''], s) else Inl (set_error ''Err: Div Zero'' s))"
  proof (cases rest)
    case Nil
    with h show ?thesis by (simp add: MAX_TOKENS_def)
  next
    case (Cons x xs)
    obtain ty d' where x: "x = (ty, d')" by (cases x)
    with h Cons have "ty \<noteq> CHR ''N''" by simp
    with h Cons x get_precedence_le_2[of "fl_to_char F d'"] show ?thesis
      by (simp add: MAX_TOKENS_def e set_error_sets get_precedence_def)
  qed
  have guards: "\<not> calculator_error s" "expr_len s \<noteq> 0" "expr_len s \<noteq> 1"
    "expr_type s ! (expr_len s - 1) \<noteq> CHR ''O''"
    using h len by simp_all
  show "evaluate_full_expression F s = (fl_const F 0, set_error ''Err: Div Zero'' s)"
    using guards by (simp add: evaluate_full_expression_def sc e set_error_sets)
next
  assume "\<not> calculator_error s"
  then show "execute_apply_operator F CHR ''+'' a b s = (fl_add F a b, s)"
    "execute_apply_operator F CHR ''-'' a b s = (fl_sub F a b, s)"
    "execute_apply_operator F CHR ''*'' a b s = (fl_mul F a b, s)"
    by (simp_all add: execute_apply_operator_def)
qed

theorem division_by_zero_aborts_witness:
  "\<bar>1 / 20000000 :: rat\<bar> < 1 / 10 ^ 7
   \<and> fl_lt b32 (fl_abs b32 (Fin (1 / 20000000))) (FLOAT_EPSILON b32)
   \<and> \<not> calculator_error one_by_zero
   \<and> fl_lt b32 (fl_abs b32 (Fin 0)) (FLOAT_EPSILON b32)
   \<and> tokens one_by_zero = [(CHR ''N'', Fin 1), (CHR ''O'', Fin 47), (CHR ''N'', Fin 0)]
   \<and> fl_to_char b32 (Fin 47) = CHR ''/''
   \<and> expr_type one_by_zero ! (expr_len one_by_zero - 1) \<noteq> CHR ''O''
   \<and> execute_apply_operator b32 CHR ''/'' (Fin 1) (Fin 0) one_by_zero
       = (Fin 0, set_error ''Err: Div Zero'' one_by_zero)
   \<and> drain_ops b32 [Fin 0, Fin 1, Fin 5] [CHR ''/'', CHR ''+''] one_by_zero
       = Inl (set_error ''Err: Div Zero'' one_by_zero)
   \<and> evaluate_full_expression b32 one_by_zero
       = (Fin 0, set_error ''Err: Div Zero'' one_by_zero)
   \<and> c_str (error_message (set_error ''Err: Div Zero'' one_by_zero)) = ''Err: Div Zero''
   \<and> execute_apply_operator b32 CHR ''*'' (Fin 1) (Fin 0) one_by_zero = (Fin 0, one_by_zero)"
proof -
  have hyp: "\<not> calculator_error one_by_zero
      \<and> fl_lt b32 (fl_abs b32 (Fin 0)) (FLOAT_EPSILON b32)
      \<and> tokens one_by_zero = [(CHR ''N'', Fin 1), (CHR ''O'', Fin 47), (CHR ''N'', Fin 0)]
      \<and> fl_to_char b32 (Fin 47) = CHR ''/''
      \<and> expr_type one_by_zero ! (expr_len one_by_zero - 1) \<noteq> CHR ''O''"
    by code_simp
  have val: "fl_const b32 0 = Fin 0" "fl_mul b32 (Fin 1) (Fin 0) = Fin 0"
    by code_simp+
  have msg: "c_str (error_message (set_error ''Err: Div Zero'' one_by_zero)) = ''Err: Div Zero''"
    by code_simp
  have tag: "CHR ''O'' \<noteq> CHR ''N''"
    by simp
  from division_by_zero_aborts[of one_by_zero b32 "Fin 0" "Fin 1" "[Fin 5]" "[CHR ''+'']"
      "CHR ''+''" "CHR ''O''" "Fin 47" "[]" 0] hyp tag
  have "execute_apply_operator b32 CHR ''/'' (Fin 1) (Fin 0) one_by_zero
          = (fl_const b32 0, set_error ''Err: Div Zero'' one_by_zero)
      \<and> drain_ops b32 [Fin 0, Fin 1, Fin 5] [CHR ''/'', CHR ''+''] one_by_zero
          = Inl (set_error ''Err: Div Zero'' one_by_zero)
      \<and> evaluate_full_expression b32 one_by_zero
          = (fl_const b32 0, set_error ''Err: Div Zero'' one_by_zero)
      \<and> execute_apply_operator b32 CHR ''*'' (Fin 1) (Fin 0) one_by_zero
          = (fl_mul b32 (Fin 1) (Fin 0), one_by_zero)"
    by blast
  then have "execute_apply_operator b32 CHR ''/'' (Fin 1) (Fin 0) one_by_zero
          = (Fin 0, set_error ''Err: Div Zero'' one_by_zero)
      \<and> drain_ops b32 [Fin 0, Fin 1, Fin 5] [CHR ''/'', CHR ''+''] one_by_zero
          = Inl (set_error ''Err: Div Zero'' one_by_zero)
      \<and> evaluate_full_expression b32 one_by_zero
          = (Fin 0, set_error ''Err: Div Zero'' one_by_zero)
      \<and> execute_apply_operator b32 CHR ''*'' (Fin 1) (Fin 0) one_by_zero = (Fin 0, one_by_zero)"
    unfolding val .
  moreover have small: "\<bar>1 / 20000000 :: rat\<bar> < 1 / 10 ^ 7"
    by simp
  moreover from division_by_zero_aborts[of one_by_zero b32 "Fin 0" "Fin 1" "[Fin 5]" "[CHR ''+'']"
      "CHR ''+''" "CHR ''O''" "Fin 47" "[]" "1 / 20000000"] small
  have "fl_lt b32 (fl_abs b32 (Fin (1 / 20000000))) (FLOAT_EPSILON b32)"
    by blast
  ultimately show ?thesis using hyp msg by blast
qed

subsection \<open>The evaluator computes the value of the infix expression\<close>

lemma execute_apply_infix:
  assumes "\<not> calculator_error s" "is_add_op c \<or> is_mul_op c"
  shows "execute_apply_operator F c a b s =
         (case apply_infix F c a b of
            Some r \<Rightarrow> (r, s)
          | None \<Rightarrow> (fl_const F 0, set_error ''Err: Div Zero'' s))"
  using assms
  by (auto simp: execute_apply_operator_def apply_infix_def is_add_op_def is_mul_op_def)

lemma apply_infix_add: "is_add_op c \<Longrightarrow> \<exists>r. apply_infix F c a b = Some r"
  by (auto simp: apply_infix_def is_add_op_def)

lemma prec_add: "is_add_op c \<Longrightarrow> get_precedence c = 1"
  by (auto simp: is_add_op_def get_precedence_def)

lemma prec_mul: "is_mul_op c \<Longrightarrow> get_precedence c = 2"
  by (auto simp: is_mul_op_def get_precedence_def)

lemma encode_op:
  assumes "char_roundtrip F" "is_add_op c \<or> is_mul_op c"
  shows "fl_to_char F (fl_of_char F c) = c"
  using assms by (auto simp: char_roundtrip_def is_add_op_def is_mul_op_def)

text \<open>A multiplicative operator on top of the stack is applied before anything else
  happens, when the next token is an operator or the input has ended.\<close>

lemma run_stacks_mul_top:
  assumes "\<not> calculator_error s" "is_mul_op m" "char_roundtrip F" "op_tail rest"
  shows "run_stacks F (map (encode F) rest) (b # a # vs) (m # ops) s =
         (case apply_infix F m a b of
            None \<Rightarrow> (fl_const F 0, set_error ''Err: Div Zero'' s)
          | Some r \<Rightarrow> run_stacks F (map (encode F) rest) (r # vs) ops s)"
proof (cases rest rule: op_tail.cases)
  case 1
  with assms show ?thesis
    by (auto simp: run_stacks_def execute_apply_infix set_error_sets split: option.splits)
next
  case (2 c b' rest')
  with assms have c: "is_add_op c \<or> is_mul_op c" by simp
  then have "get_precedence c \<le> get_precedence m"
    using assms(2) by (auto simp: prec_add prec_mul)
  with 2 assms c show ?thesis
    by (auto simp: run_stacks_def execute_apply_infix set_error_sets encode_op split: option.splits)
qed (use assms in simp_all)

lemma run_stacks_step_mul:
  assumes "\<not> calculator_error s" "is_mul_op c" "char_roundtrip F" "base_ok base"
  shows "run_stacks F (encode F (Operator c) # encode F (Number b) # toks)
           (t # base_vals base) (base_ops base) s
         = run_stacks F toks (b # t # base_vals base) (c # base_ops base) s"
proof (cases base)
  case None
  with assms show ?thesis
    by (simp add: run_stacks_def encode_op MAX_TOKENS_def)
next
  case (Some p)
  obtain acc c0 where p: "p = (acc, c0)" by (cases p)
  with Some assms have "is_add_op c0" by simp
  then have "\<not> get_precedence c \<le> get_precedence c0"
    using assms(2) by (simp add: prec_add prec_mul)
  with Some p assms show ?thesis
    by (simp add: run_stacks_def encode_op MAX_TOKENS_def)
qed

lemma run_stacks_step_add:
  assumes "\<not> calculator_error s" "is_add_op c" "char_roundtrip F" "base_ok base"
  shows "run_stacks F (encode F (Operator c) # encode F (Number b) # toks)
           (t # base_vals base) (base_ops base) s
         = (case base of
              None \<Rightarrow> run_stacks F toks [b, t] [c] s
            | Some (acc, c0) \<Rightarrow>
                (case apply_infix F c0 acc t of
                   None \<Rightarrow> (fl_const F 0, set_error ''Err: Div Zero'' s)
                 | Some r \<Rightarrow> run_stacks F toks [b, r] [c] s))"
proof (cases base)
  case None
  with assms show ?thesis
    by (simp add: run_stacks_def encode_op MAX_TOKENS_def)
next
  case (Some p)
  obtain acc c0 where p: "p = (acc, c0)" by (cases p)
  with Some assms have a0: "is_add_op c0" by simp
  then have le: "get_precedence c \<le> get_precedence c0"
    using assms(2) by (simp add: prec_add)
  from apply_infix_add[OF a0, of F acc t] obtain r where r: "apply_infix F c0 acc t = Some r" by blast
  have e: "execute_apply_operator F c0 acc t s = (r, s)"
    using execute_apply_infix[of s c0 F acc t] assms(1) a0 r by simp
  from Some p assms le show ?thesis
    by (simp add: run_stacks_def encode_op MAX_TOKENS_def e r)
qed

lemma run_stacks_pending:
  assumes "\<not> calculator_error s" "char_roundtrip F"
  shows "op_tail rest \<Longrightarrow> base_ok base \<Longrightarrow>
         run_stacks F (map (encode F) rest) (t # base_vals base) (base_ops base) s
         = outcome F s (pending_value F base t rest)"
proof (induction rest arbitrary: t base rule: op_tail.induct)
  case 1
  show ?case
  proof (cases base)
    case None
    then show ?thesis by (simp add: run_stacks_def outcome_def pending_value_def)
  next
    case (Some p)
    obtain acc c0 where p: "p = (acc, c0)" by (cases p)
    with Some 1 have a0: "is_add_op c0" by simp
    from apply_infix_add[OF a0, of F acc t] obtain r where r: "apply_infix F c0 acc t = Some r" by blast
    have e: "execute_apply_operator F c0 acc t s = (r, s)"
      using execute_apply_infix[of s c0 F acc t] assms(1) a0 r by simp
    from Some p show ?thesis
      using assms(1) by (simp add: run_stacks_def outcome_def pending_value_def e r)
  qed
next
  case (2 c b rest)
  from "2.prems" have cop: "is_add_op c \<or> is_mul_op c" and tl: "op_tail rest" by simp_all
  show ?case
  proof (cases "is_mul_op c")
    case True
    have "run_stacks F (map (encode F) (Operator c # Number b # rest)) (t # base_vals base) (base_ops base) s
          = run_stacks F (map (encode F) rest) (b # t # base_vals base) (c # base_ops base) s"
      using run_stacks_step_mul[OF assms(1) True assms(2) "2.prems"(2)] by simp
    also have "\<dots> = (case apply_infix F c t b of
            None \<Rightarrow> (fl_const F 0, set_error ''Err: Div Zero'' s)
          | Some r \<Rightarrow> run_stacks F (map (encode F) rest) (r # base_vals base) (base_ops base) s)"
      by (rule run_stacks_mul_top[OF assms(1) True assms(2) tl])
    also have "\<dots> = outcome F s (pending_value F base t (Operator c # Number b # rest))"
    proof (cases "apply_infix F c t b")
      case None
      with True show ?thesis by (simp add: outcome_def pending_value_def)
    next
      case (Some r)
      with True "2.IH"[OF tl "2.prems"(2), of r] show ?thesis
        by (simp add: pending_value_def)
    qed
    finally show ?thesis .
  next
    case False
    with cop have add: "is_add_op c" by simp
    note step = run_stacks_step_add[OF assms(1) add assms(2) "2.prems"(2), of b "map (encode F) rest" t]
    show ?thesis
    proof (cases base)
      case None
      have "base_ok (Some (t, c))" using add by simp
      from "2.IH"[OF tl this, of b] step None False show ?thesis
        by (simp add: pending_value_def split: prod.splits option.splits)
    next
      case (Some p)
      obtain acc c0 where p: "p = (acc, c0)" by (cases p)
      with Some "2.prems" have a0: "is_add_op c0" by simp
      from apply_infix_add[OF a0, of F acc t] obtain r where r: "apply_infix F c0 acc t = Some r" by blast
      have "base_ok (Some (r, c))" using add by simp
      from "2.IH"[OF tl this, of b] step Some p r False show ?thesis
        by (simp add: pending_value_def split: prod.splits option.splits)
    qed
  qed
qed simp_all

lemma tokens_nth:
  assumes "expr_len s \<le> length (expr_type s)" "expr_len s \<le> length (expr_data s)"
  shows "length (tokens s) = expr_len s"
    and "i < expr_len s \<Longrightarrow> tokens s ! i = (expr_type s ! i, expr_data s ! i)"
  using assms by (simp_all add: tokens_def)

lemma op_tail_last: "op_tail rest \<Longrightarrow> \<exists>x. last (Number a # rest) = Number x"
  by (induction rest arbitrary: a rule: op_tail.induct) auto

lemma evaluate_run_stacks:
  assumes "\<not> calculator_error s" "expr_len s \<noteq> 0" "expr_len s \<noteq> 1"
    "expr_type s ! (expr_len s - 1) \<noteq> CHR ''O''"
  shows "evaluate_full_expression F s = run_stacks F (tokens s) [] [] s"
  using assms by (simp add: evaluate_full_expression_def run_stacks_def)

lemma evaluate_well_formed:
  fixes F :: "'f farith"
  assumes "\<not> calculator_error s" and "well_formed toks" and "tokens s = map (encode F) toks"
    and "expr_len s \<le> length (expr_type s)" and "expr_len s \<le> length (expr_data s)"
    and "char_roundtrip F"
  shows "evaluate_full_expression F s = outcome F s (infix_value F toks)"
proof -
  from assms(2) obtain a rest where toks: "toks = Number a # rest" and tl: "op_tail rest"
    by (cases toks rule: well_formed.cases) auto
  note tn = tokens_nth[OF assms(4,5)]
  have len: "expr_len s = Suc (length rest)"
    using tn(1) assms(3) toks by simp
  from op_tail_last[OF tl, of a] obtain x where x: "last toks = Number x"
    using toks by blast
  have "tokens s ! (expr_len s - 1) = encode F (last toks)"
    using assms(3) toks len by (simp add: last_conv_nth nth_Cons' del: last.simps)
  with tn(2)[of "expr_len s - 1"] len x
  have lastN: "expr_type s ! (expr_len s - 1) = CHR ''N''"
    by simp
  have first: "expr_type s ! 0 = CHR ''N''" "expr_data s ! 0 = a"
    using tn(2)[of 0] len assms(3) toks by simp_all
  show ?thesis
  proof (cases rest)
    case Nil
    with len first assms(1) toks show ?thesis
      by (simp add: evaluate_full_expression_def outcome_def infix_value_def)
  next
    case (Cons r rs)
    with len have "expr_len s \<noteq> 0" "expr_len s \<noteq> 1" by simp_all
    from evaluate_run_stacks[OF assms(1) this] lastN
    have "evaluate_full_expression F s = run_stacks F (tokens s) [] [] s" by simp
    also have "\<dots> = run_stacks F (map (encode F) rest) [a] [] s"
      using assms(3) toks by (simp add: run_stacks_def MAX_TOKENS_def)
    also have "\<dots> = outcome F s (pending_value F None a rest)"
      using run_stacks_pending[OF assms(1) assms(6) tl, of None a] by simp
    also have "pending_value F None a rest = infix_value F toks"
      using toks by (simp add: pending_value_def infix_value_def split: prod.splits option.splits)
    finally show ?thesis .
  qed
qed

text \<open>
  Claim C1 (precedence and associativity). For a token buffer that holds a well-formed
  expression (numbers and the operators \<open>+ - * /\<close> in alternation, a number first and
  last), with no error active, \<open>evaluate_full_expression\<close> returns the value of the infix
  expression in which \<open>*\<close> and \<open>/\<close> have precedence 2, \<open>+\<close> and \<open>-\<close> precedence 1,
  and equal precedence associates to the left, and it leaves the state as it is; when
  the expression divides by a number within the epsilon of zero it returns \<^verbatim>\<open>0.0f\<close>
  with \<^verbatim>\<open>Err: Div Zero\<close> set. In binary32 arithmetic \<open>2 + 3 * 4\<close> evaluates to 14,
  \<open>2 * 3 + 4\<close> to 10 and \<open>10 - 2 + 3\<close> to 11, each with no error set.
\<close>

theorem evaluate_infix_value:
  fixes F :: "'f farith"
  assumes "\<not> calculator_error s" and "well_formed toks" and "tokens s = map (encode F) toks"
    and "expr_len s \<le> length (expr_type s)" and "expr_len s \<le> length (expr_data s)"
    and "char_roundtrip F"
  shows "evaluate_full_expression F s = outcome F s (infix_value F toks)
    \<and> get_precedence CHR ''+'' = 1 \<and> get_precedence CHR ''-'' = 1
    \<and> get_precedence CHR ''*'' = 2 \<and> get_precedence CHR ''/'' = 2
    \<and> evaluate_full_expression b32 (load_tokens b32 two_plus_three_times_four (init_calc b32))
        = (Fin 14, load_tokens b32 two_plus_three_times_four (init_calc b32))
    \<and> \<not> calculator_error (load_tokens b32 two_plus_three_times_four (init_calc b32))
    \<and> evaluate_full_expression b32 (load_tokens b32 two_times_three_plus_four (init_calc b32))
        = (Fin 10, load_tokens b32 two_times_three_plus_four (init_calc b32))
    \<and> \<not> calculator_error (load_tokens b32 two_times_three_plus_four (init_calc b32))
    \<and> evaluate_full_expression b32 (load_tokens b32 ten_minus_two_plus_three (init_calc b32))
        = (Fin 11, load_tokens b32 ten_minus_two_plus_three (init_calc b32))
    \<and> \<not> calculator_error (load_tokens b32 ten_minus_two_plus_three (init_calc b32))"
proof (intro conjI)
  show "evaluate_full_expression F s = outcome F s (infix_value F toks)"
    by (rule evaluate_well_formed[OF assms])
  show "evaluate_full_expression b32 (load_tokens b32 two_plus_three_times_four (init_calc b32))
        = (Fin 14, load_tokens b32 two_plus_three_times_four (init_calc b32))"
    by code_simp
  show "evaluate_full_expression b32 (load_tokens b32 two_times_three_plus_four (init_calc b32))
        = (Fin 10, load_tokens b32 two_times_three_plus_four (init_calc b32))"
    by code_simp
  show "evaluate_full_expression b32 (load_tokens b32 ten_minus_two_plus_three (init_calc b32))
        = (Fin 11, load_tokens b32 ten_minus_two_plus_three (init_calc b32))"
    by code_simp
  show "\<not> calculator_error (load_tokens b32 two_plus_three_times_four (init_calc b32))"
    by code_simp
  show "\<not> calculator_error (load_tokens b32 two_times_three_plus_four (init_calc b32))"
    by code_simp
  show "\<not> calculator_error (load_tokens b32 ten_minus_two_plus_three (init_calc b32))"
    by code_simp
qed (simp_all add: get_precedence_def)

theorem evaluate_infix_value_witness:
  "\<not> calculator_error (load_tokens b32 mixed_expression (init_calc b32))
   \<and> well_formed mixed_expression
   \<and> tokens (load_tokens b32 mixed_expression (init_calc b32)) = map (encode b32) mixed_expression
   \<and> char_roundtrip b32
   \<and> infix_value b32 mixed_expression = Some (Fin 5)
   \<and> evaluate_full_expression b32 (load_tokens b32 mixed_expression (init_calc b32))
       = (Fin 5, load_tokens b32 mixed_expression (init_calc b32))
   \<and> well_formed late_zero_divisor
   \<and> infix_value b32 late_zero_divisor = None
   \<and> evaluate_full_expression b32 (load_tokens b32 late_zero_divisor (init_calc b32))
       = (Fin 0, set_error ''Err: Div Zero'' (load_tokens b32 late_zero_divisor (init_calc b32)))"
proof -
  let ?s = "load_tokens b32 mixed_expression (init_calc b32)"
  let ?z = "load_tokens b32 late_zero_divisor (init_calc b32)"
  have rt: "char_roundtrip b32"
    by code_simp
  have h: "\<not> calculator_error ?s" "well_formed mixed_expression"
    "tokens ?s = map (encode b32) mixed_expression"
    "expr_len ?s \<le> length (expr_type ?s)" "expr_len ?s \<le> length (expr_data ?s)"
    by code_simp+
  have v: "infix_value b32 mixed_expression = Some (Fin 5)"
    by code_simp
  have hz: "\<not> calculator_error ?z" "well_formed late_zero_divisor"
    "tokens ?z = map (encode b32) late_zero_divisor"
    "expr_len ?z \<le> length (expr_type ?z)" "expr_len ?z \<le> length (expr_data ?z)"
    by code_simp+
  have vz: "infix_value b32 late_zero_divisor = None" "fl_const b32 0 = Fin 0"
    by code_simp+
  from evaluate_infix_value[OF h rt]
  have "evaluate_full_expression b32 ?s = outcome b32 ?s (infix_value b32 mixed_expression)"
    by (rule conjunct1)
  then have e: "evaluate_full_expression b32 ?s = (Fin 5, ?s)"
    unfolding v by (simp add: outcome_def)
  from evaluate_infix_value[OF hz rt]
  have "evaluate_full_expression b32 ?z = outcome b32 ?z (infix_value b32 late_zero_divisor)"
    by (rule conjunct1)
  then have ez: "evaluate_full_expression b32 ?z = (Fin 0, set_error ''Err: Div Zero'' ?z)"
    unfolding vz by (simp add: outcome_def vz)
  show ?thesis using rt h v e hz vz ez by blast
qed

section \<open>Properties of the number parser\<close>

lemma not_digit_dot: "\<not> is_digit CHR ''.''"
  by (simp add: is_digit_def)

lemma parse_digits_frac:
  "\<forall>c \<in> set ds. is_digit c \<Longrightarrow>
   parse_digits F ds r m True s = Inr (fst (foldl (frac_step F) (r, m) ds))"
proof (induction ds arbitrary: r m)
  case Nil
  show ?case by simp
next
  case (Cons c ds)
  then have "is_digit c" "c \<noteq> CHR ''.''" using not_digit_dot by auto
  with Cons show ?case by (simp add: frac_step_def)
qed

lemma parse_digits_int:
  "\<forall>c \<in> set ds. is_digit c \<Longrightarrow>
   parse_digits F (ds @ rest) r m False s = parse_digits F rest (foldl (int_step F) r ds) m False s"
proof (induction ds arbitrary: r)
  case Nil
  show ?case by simp
next
  case (Cons c ds)
  then have "is_digit c" "c \<noteq> CHR ''.''" using not_digit_dot by auto
  with Cons show ?case by (simp add: int_step_def)
qed

lemma body_split:
  "body = takeWhile (\<lambda>c. c \<noteq> CHR ''.'') body @ dropWhile (\<lambda>c. c \<noteq> CHR ''.'') body"
  by simp

lemma count_dot_takeWhile: "count_list (takeWhile (\<lambda>c. c \<noteq> CHR ''.'') body) CHR ''.'' = 0"
  by (induction body) auto

lemma parse_digits_body:
  assumes "\<forall>c \<in> set body. is_digit c \<or> c = CHR ''.''" "count_list body CHR ''.'' \<le> 1"
  shows "parse_digits F body r m False s =
         Inr (fst (foldl (frac_step F)
                    (foldl (int_step F) r (takeWhile (\<lambda>c. c \<noteq> CHR ''.'') body), m)
                    (drop 1 (dropWhile (\<lambda>c. c \<noteq> CHR ''.'') body))))"
proof -
  let ?ip = "takeWhile (\<lambda>c. c \<noteq> CHR ''.'') body"
  let ?rest = "dropWhile (\<lambda>c. c \<noteq> CHR ''.'') body"
  have ip: "\<forall>c \<in> set ?ip. is_digit c"
    using assms(1) by (auto dest!: set_takeWhileD)
  have step: "parse_digits F body r m False s = parse_digits F ?rest (foldl (int_step F) r ?ip) m False s"
    using parse_digits_int[OF ip, of F ?rest r m s] by simp
  show ?thesis
  proof (cases ?rest)
    case Nil
    from step show ?thesis unfolding Nil by simp
  next
    case (Cons d fp)
    then have d: "d = CHR ''.''"
      using hd_dropWhile[of "\<lambda>c. c \<noteq> CHR ''.''" body] by simp
    have "count_list body CHR ''.'' = count_list ?ip CHR ''.'' + count_list ?rest CHR ''.''"
      using count_list_append[of ?ip ?rest "CHR ''.''"] by simp
    with assms(2) Cons d have nodot: "count_list fp CHR ''.'' = 0"
      by (simp add: count_dot_takeWhile)
    have "set fp \<subseteq> set ?rest"
      using Cons by auto
    then have "set fp \<subseteq> set body"
      using set_dropWhileD[of _ "\<lambda>c. c \<noteq> CHR ''.''" body] by blast
    with assms(1) nodot have fp: "\<forall>c \<in> set fp. is_digit c"
      using count_list_0_iff[of fp "CHR ''.''"] by blast
    from step Cons d parse_digits_frac[OF fp] show ?thesis by simp
  qed
qed

lemma scanned_facts:
  assumes "scanned s = cs" "current_num_index s \<le> length (current_num_str s)"
  shows "current_num_index s = length cs"
    and "cs \<noteq> [] \<Longrightarrow> current_num_str s ! 0 = hd cs"
proof -
  show len: "current_num_index s = length cs"
    using assms by (auto simp: scanned_def)
  assume "cs \<noteq> []"
  then have "0 < current_num_index s" using len by simp
  then show "current_num_str s ! 0 = hd cs"
    using assms(1) by (metis hd_conv_nth length_greater_0_conv len nth_take scanned_def)
qed

lemma parse_numeric_entry:
  assumes "numeric_entry cs" "cs \<noteq> ''-''" "cs \<noteq> ''.''" "scanned s = cs"
    "current_num_index s \<le> length (current_num_str s)"
  shows "parse_current_input_number F s = (entry_value F cs, s)"
proof (cases cs)
  case Nil
  with scanned_facts(1)[OF assms(4,5)] show ?thesis
    by (simp add: parse_current_input_number_def entry_value_def entry_body_def)
next
  case (Cons c cs')
  note sf = scanned_facts[OF assms(4,5)]
  from Cons sf have idx: "current_num_index s = Suc (length cs')" and hd: "current_num_str s ! 0 = c"
    by simp_all
  have nz: "current_num_index s \<noteq> 0" using idx by simp
  have g1: "\<not> (current_num_index s = 1 \<and> current_num_str s ! 0 = CHR ''-'')"
    using assms(2) Cons idx hd by auto
  have g2: "\<not> (current_num_index s = 1 \<and> current_num_str s ! 0 = CHR ''.'')"
    using assms(3) Cons idx hd by auto
  from assms(1) have ok: "\<forall>c \<in> set (entry_body cs). is_digit c \<or> c = CHR ''.''"
    "count_list (entry_body cs) CHR ''.'' \<le> 1"
    by (simp_all add: numeric_entry_def)
  note pd = parse_digits_body[OF ok, of F "fl_const F 0" "fl_const F (1 / 10)" s]
  have unfold: "parse_current_input_number F s =
      (let is_negative_num = (c = CHR ''-'');
           start_idx = (if is_negative_num then 1 else 0)
       in case parse_digits F (drop start_idx (scanned s))
                 (fl_const F 0) (fl_const F (1 / 10)) False s of
            Inl s' \<Rightarrow> (fl_const F 0, s')
          | Inr result \<Rightarrow> (if is_negative_num then fl_neg F result else result, s))"
    unfolding parse_current_input_number_def hd [symmetric]
    by (simp only: nz g1 g2 if_False)
  show ?thesis
  proof (cases "c = CHR ''-''")
    case True
    then have "drop 1 (scanned s) = entry_body cs"
      using assms(4) Cons by (simp add: entry_body_def)
    with True pd Cons show ?thesis
      unfolding unfold by (simp add: entry_value_def Let_def)
  next
    case False
    then have "scanned s = entry_body cs"
      using assms(4) Cons by (simp add: entry_body_def)
    with False pd Cons show ?thesis
      unfolding unfold by (simp add: entry_value_def Let_def)
  qed
qed

lemma digits_shift:
  "foldl (\<lambda>n c. 10 * n + digit_of c) n ds = n * 10 ^ length ds + digits_value ds"
  unfolding digits_value_def
proof (induction ds arbitrary: n)
  case Nil
  show ?case by simp
next
  case (Cons c ds)
  from Cons[of "10 * n + digit_of c"] Cons[of "digit_of c"] show ?case
    by (simp add: algebra_simps)
qed

lemma exact_int_digits:
  "foldl (int_step (exact_arith fmt)) (of_nat n) ds
   = of_nat (foldl (\<lambda>n c. 10 * n + digit_of c) n ds)"
proof (induction ds arbitrary: n)
  case Nil
  show ?case by simp
next
  case (Cons c ds)
  have "int_step (exact_arith fmt) (of_nat n) c = of_nat (10 * n + digit_of c)"
    by (simp add: int_step_def exact_arith_def)
  with Cons[of "10 * n + digit_of c"] show ?case by simp
qed

lemma exact_frac_digits:
  "fst (foldl (frac_step (exact_arith fmt)) (v, m) ds)
   = v + m * 10 * of_nat (digits_value ds) / 10 ^ length ds"
proof (induction ds arbitrary: v m)
  case Nil
  show ?case by (simp add: digits_value_def)
next
  case (Cons c ds)
  have step: "frac_step (exact_arith fmt) (v, m) c = (v + of_nat (digit_of c) * m, m / 10)"
    by (simp add: frac_step_def exact_arith_def)
  have dv: "digits_value (c # ds) = digit_of c * 10 ^ length ds + digits_value ds"
    using digits_shift[of "digit_of c" ds] by (simp add: digits_value_def)
  show ?case
    by (simp add: step Cons dv field_simps)
qed

lemma exact_entry_value: "entry_value (exact_arith fmt) cs = decimal_value cs"
proof -
  have z: "fl_const (exact_arith fmt) 0 = of_nat 0" "fl_const (exact_arith fmt) (1 / 10) = 1 / 10"
    "fl_neg (exact_arith fmt) = uminus"
    by (simp_all add: exact_arith_def)
  show ?thesis
    unfolding entry_value_def decimal_value_def Let_def z exact_int_digits exact_frac_digits
    by (simp add: digits_value_def)
qed

lemma parse_digits_bad:
  "(\<exists>c \<in> set cs. \<not> is_digit c \<and> c \<noteq> CHR ''.'')
     \<or> 2 \<le> (if d then 1 else 0) + count_list cs CHR ''.'' \<Longrightarrow>
   parse_digits F cs r m d s = Inl (set_error ''Err: Syntax'' s)"
proof (induction cs arbitrary: r m d)
  case Nil
  then show ?case by (simp split: if_splits)
next
  case (Cons c cs)
  show ?case
  proof (cases "c = CHR ''.''")
    case True
    show ?thesis
    proof (cases d)
      case True
      with \<open>c = CHR ''.''\<close> show ?thesis by simp
    next
      case False
      with True Cons.prems
      have "(\<exists>c \<in> set cs. \<not> is_digit c \<and> c \<noteq> CHR ''.'')
            \<or> 2 \<le> (if True then 1 else 0) + count_list cs CHR ''.''"
        by auto
      from Cons.IH[OF this] True False show ?thesis by simp
    qed
  next
    case False
    show ?thesis
    proof (cases "is_digit c")
      case True
      with False Cons.prems
      have "(\<exists>c \<in> set cs. \<not> is_digit c \<and> c \<noteq> CHR ''.'')
            \<or> 2 \<le> (if d then 1 else 0) + count_list cs CHR ''.''"
        by auto
      from Cons.IH[OF this] True False show ?thesis by (cases d) simp_all
    next
      case nd: False
      with False show ?thesis by simp
    qed
  qed
qed

lemma parse_malformed:
  assumes "current_num_index s \<le> length (current_num_str s)"
    and "(\<exists>c \<in> set (entry_body (scanned s)). \<not> is_digit c \<and> c \<noteq> CHR ''.'')
         \<or> 2 \<le> count_list (entry_body (scanned s)) CHR ''.''"
  shows "parse_current_input_number F s = (fl_const F 0, set_error ''Err: Syntax'' s)"
proof (cases "scanned s")
  case Nil
  with assms(2) show ?thesis by (simp add: entry_body_def)
next
  case (Cons c cs')
  note sf = scanned_facts[OF refl assms(1)]
  from Cons sf have idx: "current_num_index s = Suc (length cs')" and hd: "current_num_str s ! 0 = c"
    by simp_all
  have nz: "current_num_index s \<noteq> 0" using idx by simp
  from assms(2) have bad: "(\<exists>c \<in> set (entry_body (scanned s)). \<not> is_digit c \<and> c \<noteq> CHR ''.'')
      \<or> 2 \<le> (if False then 1 else 0) + count_list (entry_body (scanned s)) CHR ''.''"
    by simp
  note pd = parse_digits_bad[OF bad, of F "fl_const F 0" "fl_const F (1 / 10)" s]
  show ?thesis
  proof (cases "c = CHR ''-''")
    case True
    then have "drop 1 (scanned s) = entry_body (scanned s)"
      using Cons by (simp add: entry_body_def)
    with True pd hd nz show ?thesis
      by (simp add: parse_current_input_number_def Let_def)
  next
    case False
    then have "scanned s = entry_body (scanned s)"
      using Cons by (simp add: entry_body_def)
    with False pd hd nz show ?thesis
      by (simp add: parse_current_input_number_def Let_def)
  qed
qed

text \<open>
  Claim C3 (rejected entries). On an empty pending entry the parser returns \<^verbatim>\<open>0.0f\<close>
  and leaves the state as it is. On an entry that is exactly \<open>-\<close> or exactly \<open>.\<close>,
  and on an entry that after an optional leading \<open>-\<close> holds a second \<open>.\<close> or a
  character that is neither a digit nor \<open>.\<close>, it returns \<^verbatim>\<open>0.0f\<close> after
  \<open>set_error\<close> with \<^verbatim>\<open>Err: Syntax\<close>, which with no error active sets the flag and
  stores that message.
\<close>

theorem parse_rejects:
  "(current_num_index s = 0 \<longrightarrow> parse_current_input_number F s = (fl_const F 0, s))
   \<and> (current_num_index s \<le> length (current_num_str s)
        \<and> (scanned s = ''-'' \<or> scanned s = ''.'') \<longrightarrow>
        parse_current_input_number F s = (fl_const F 0, set_error ''Err: Syntax'' s))
   \<and> (current_num_index s \<le> length (current_num_str s)
        \<and> ((\<exists>c \<in> set (entry_body (scanned s)). \<not> is_digit c \<and> c \<noteq> CHR ''.'')
             \<or> 2 \<le> count_list (entry_body (scanned s)) CHR ''.'') \<longrightarrow>
        parse_current_input_number F s = (fl_const F 0, set_error ''Err: Syntax'' s))
   \<and> (\<not> calculator_error s \<and> length (error_message s) = ERROR_MSG_LEN \<longrightarrow>
        calculator_error (set_error ''Err: Syntax'' s)
        \<and> c_str (error_message (set_error ''Err: Syntax'' s)) = ''Err: Syntax'')"
proof (intro conjI impI)
  assume "current_num_index s = 0"
  then show "parse_current_input_number F s = (fl_const F 0, s)"
    by (simp add: parse_current_input_number_def)
next
  assume h: "current_num_index s \<le> length (current_num_str s)
        \<and> (scanned s = ''-'' \<or> scanned s = ''.'')"
  then have one: "current_num_index s = 1"
    using scanned_facts(1)[of s "scanned s"] by auto
  from h have "current_num_str s ! 0 = hd (scanned s)"
    using scanned_facts(2)[of s "scanned s"] by auto
  with h one show "parse_current_input_number F s = (fl_const F 0, set_error ''Err: Syntax'' s)"
    by (auto simp: parse_current_input_number_def)
next
  assume "current_num_index s \<le> length (current_num_str s)
        \<and> ((\<exists>c \<in> set (entry_body (scanned s)). \<not> is_digit c \<and> c \<noteq> CHR ''.'')
             \<or> 2 \<le> count_list (entry_body (scanned s)) CHR ''.'')"
  then show "parse_current_input_number F s = (fl_const F 0, set_error ''Err: Syntax'' s)"
    using parse_malformed[of s F] by blast
next
  assume "\<not> calculator_error s \<and> length (error_message s) = ERROR_MSG_LEN"
  then have "c_str (error_message (set_error ''Err: Syntax'' s)) = take 16 (c_str ''Err: Syntax'')"
    using set_error_fresh(2)[of s "''Err: Syntax''"] by simp
  then show "c_str (error_message (set_error ''Err: Syntax'' s)) = ''Err: Syntax''"
    by (simp add: c_str_def NUL_def)
qed (rule set_error_sets)

theorem parse_rejects_witness:
  "current_num_index (init_calc b32) = 0
   \<and> parse_current_input_number b32 (init_calc b32) = (Fin 0, init_calc b32)
   \<and> scanned (entry ''-'') = ''-''
   \<and> parse_current_input_number b32 (entry ''-'') = (Fin 0, set_error ''Err: Syntax'' (entry ''-''))
   \<and> scanned (entry ''.'') = ''.''
   \<and> parse_current_input_number b32 (entry ''.'') = (Fin 0, set_error ''Err: Syntax'' (entry ''.''))
   \<and> 2 \<le> count_list (entry_body (scanned (entry ''1.2.3''))) CHR ''.''
   \<and> parse_current_input_number b32 (entry ''1.2.3'')
       = (Fin 0, set_error ''Err: Syntax'' (entry ''1.2.3''))
   \<and> CHR ''a'' \<in> set (entry_body (scanned (entry ''12a3'')))
   \<and> \<not> is_digit CHR ''a''
   \<and> parse_current_input_number b32 (entry ''12a3'')
       = (Fin 0, set_error ''Err: Syntax'' (entry ''12a3''))
   \<and> \<not> calculator_error (entry ''12a3'')
   \<and> c_str (error_message (set_error ''Err: Syntax'' (entry ''12a3''))) = ''Err: Syntax''"
proof -
  have zero: "fl_const b32 0 = Fin 0"
    by code_simp
  have empty: "current_num_index (init_calc b32) = 0"
    by code_simp
  have minus: "current_num_index (entry ''-'') \<le> length (current_num_str (entry ''-''))"
    "scanned (entry ''-'') = ''-''"
    by code_simp+
  have dot: "current_num_index (entry ''.'') \<le> length (current_num_str (entry ''.''))"
    "scanned (entry ''.'') = ''.''"
    by code_simp+
  have dots: "current_num_index (entry ''1.2.3'') \<le> length (current_num_str (entry ''1.2.3''))"
    "2 \<le> count_list (entry_body (scanned (entry ''1.2.3''))) CHR ''.''"
    by code_simp+
  have letter: "current_num_index (entry ''12a3'') \<le> length (current_num_str (entry ''12a3''))"
    "CHR ''a'' \<in> set (entry_body (scanned (entry ''12a3'')))" "\<not> is_digit CHR ''a''"
    "CHR ''a'' \<noteq> CHR ''.''"
    "\<not> calculator_error (entry ''12a3'')"
    "length (error_message (entry ''12a3'')) = ERROR_MSG_LEN"
    by code_simp+
  from parse_rejects[of "init_calc b32" b32] empty
  have "parse_current_input_number b32 (init_calc b32) = (Fin 0, init_calc b32)"
    unfolding zero by blast
  moreover from parse_rejects[of "entry ''-''" b32] minus
  have "parse_current_input_number b32 (entry ''-'') = (Fin 0, set_error ''Err: Syntax'' (entry ''-''))"
    unfolding zero by blast
  moreover from parse_rejects[of "entry ''.''" b32] dot
  have "parse_current_input_number b32 (entry ''.'') = (Fin 0, set_error ''Err: Syntax'' (entry ''.''))"
    unfolding zero by blast
  moreover from parse_rejects[of "entry ''1.2.3''" b32] dots
  have "parse_current_input_number b32 (entry ''1.2.3'')
      = (Fin 0, set_error ''Err: Syntax'' (entry ''1.2.3''))"
    unfolding zero by blast
  moreover from parse_rejects[of "entry ''12a3''" b32] letter
  have "parse_current_input_number b32 (entry ''12a3'')
      = (Fin 0, set_error ''Err: Syntax'' (entry ''12a3''))
      \<and> c_str (error_message (set_error ''Err: Syntax'' (entry ''12a3''))) = ''Err: Syntax''"
    unfolding zero by blast
  ultimately show ?thesis using empty minus dot dots letter by blast
qed

text \<open>
  Claim C2 does not hold as stated. The entry \<open>-\<close> is an optional sign followed by no
  digits and no point, and the parser raises \<^verbatim>\<open>Err: Syntax\<close> on it. The entry
  \<open>99.99\<close> parses in binary32 to the float nearest to 99.99, which is further than
  \<open>10\<^sup>-\<^sup>6\<close> from 99.99.
\<close>

theorem parse_value_counterexample:
  "numeric_entry ''-''
   \<and> scanned (entry ''-'') = ''-''
   \<and> calculator_error (snd (parse_current_input_number b32 (entry ''-'')))
   \<and> numeric_entry ''99.99''
   \<and> scanned (entry ''99.99'') = ''99.99''
   \<and> fst (parse_current_input_number b32 (entry ''99.99'')) = round_f32 (9999 / 100)
   \<and> decimal_value ''99.99'' = 9999 / 100
   \<and> \<not> close_to (fst (parse_current_input_number b32 (entry ''99.99'')))
          (decimal_value ''99.99'') (1 / 10 ^ 6)"
  by code_simp

text \<open>
  Claim C2, amended (value of a numeric entry). For an entry made of an optional leading
  \<open>-\<close>, digits and at most one \<open>.\<close>, other than the entries \<open>-\<close> and \<open>.\<close>, the
  parser raises no error, leaves the state as it is and returns the accumulation of the
  specification in float arithmetic (\<open>acc = acc * 10 + digit\<close>, then
  \<open>digit * multiplier\<close> with the multiplier starting at 0.1 and multiplied by 0.1
  per digit, negated under a leading \<open>-\<close>). In exact arithmetic that accumulation is
  the decimal value of the entry. In binary32 the entries \<open>12.34\<close>, \<open>-10\<close> and
  \<open>0.5\<close> parse to within \<open>10\<^sup>-\<^sup>6\<close> of 12.34, -10 and 0.5.
\<close>

theorem parse_numeric_entry_value:
  assumes "numeric_entry cs" and "cs \<noteq> ''-''" and "cs \<noteq> ''.''" and "scanned s = cs"
    and "current_num_index s \<le> length (current_num_str s)"
  shows "parse_current_input_number F s = (entry_value F cs, s)
    \<and> entry_value (exact_arith fmt) cs = decimal_value cs
    \<and> close_to (fst (parse_current_input_number b32 (entry ''12.34''))) (1234 / 100) (1 / 10 ^ 6)
    \<and> close_to (fst (parse_current_input_number b32 (entry ''-10''))) (- 10) (1 / 10 ^ 6)
    \<and> close_to (fst (parse_current_input_number b32 (entry ''0.5''))) (5 / 10) (1 / 10 ^ 6)
    \<and> \<not> calculator_error (snd (parse_current_input_number b32 (entry ''12.34'')))
    \<and> \<not> calculator_error (snd (parse_current_input_number b32 (entry ''-10'')))
    \<and> \<not> calculator_error (snd (parse_current_input_number b32 (entry ''0.5'')))"
proof (intro conjI)
  show "parse_current_input_number F s = (entry_value F cs, s)"
    by (rule parse_numeric_entry[OF assms])
  show "entry_value (exact_arith fmt) cs = decimal_value cs"
    by (rule exact_entry_value)
qed code_simp+

theorem parse_numeric_entry_value_witness:
  "numeric_entry ''-3.14''
   \<and> scanned (entry ''-3.14'') = ''-3.14''
   \<and> parse_current_input_number b32 (entry ''-3.14'') = (entry_value b32 ''-3.14'', entry ''-3.14'')
   \<and> \<not> calculator_error (entry ''-3.14'')
   \<and> entry_value (exact_arith (\<lambda>x. [])) ''-3.14'' = - 314 / 100
   \<and> close_to (entry_value b32 ''-3.14'') (- 314 / 100) (1 / 10 ^ 6)"
proof -
  have h: "numeric_entry ''-3.14''" "''-3.14'' \<noteq> ''-''" "''-3.14'' \<noteq> ''.''"
    "scanned (entry ''-3.14'') = ''-3.14''"
    "current_num_index (entry ''-3.14'') \<le> length (current_num_str (entry ''-3.14''))"
    by code_simp+
  have v: "decimal_value ''-3.14'' = - 314 / 100"
    "close_to (entry_value b32 ''-3.14'') (- 314 / 100) (1 / 10 ^ 6)"
    "\<not> calculator_error (entry ''-3.14'')"
    by code_simp+
  from parse_numeric_entry_value[OF h, of b32 "\<lambda>x. []"]
  have "parse_current_input_number b32 (entry ''-3.14'') = (entry_value b32 ''-3.14'', entry ''-3.14'')
      \<and> entry_value (exact_arith (\<lambda>x. [])) ''-3.14'' = decimal_value ''-3.14''"
    by blast
  then show ?thesis using h v by simp
qed

section \<open>Properties of the session loop\<close>

lemma reset_entry_error:
  "calculator_error (reset_entry g) = calculator_error g"
  "error_message (reset_entry g) = error_message g"
  by (simp_all add: reset_entry_def)

lemma equals_key_shown:
  "calculation_has_ended (equals_key F ss)
   \<and> (calculator_error (globals (equals_key F ss)) \<longrightarrow>
        lcd (equals_key F ss) = (c_str (error_message (globals (equals_key F ss))), []))"
  by (simp add: equals_key_def reset_entry_error split: prod.splits)

lemma other_keys_ended:
  "calculation_has_ended (digit_key k ss) = calculation_has_ended ss"
  "calculation_has_ended (decimal_key ss) = calculation_has_ended ss"
  "calculation_has_ended (operator_key F k ss) = calculation_has_ended ss"
  by (simp_all add: digit_key_def decimal_key_def operator_key_def Let_def)

lemma process_key_ended:
  assumes "\<not> calculation_has_ended ss" "calculation_has_ended (process_key F key ss)"
    "calculator_error (globals (process_key F key ss))"
  shows "lcd (process_key F key ss) = (c_str (error_message (globals (process_key F key ss))), [])"
proof -
  consider (digit) "process_key F key ss = digit_key key ss"
    | (decimal) "process_key F key ss = decimal_key ss"
    | (operator) "process_key F key ss = operator_key F key ss"
    | (equals) "process_key F key ss = equals_key F ss"
    | (other) "process_key F key ss = ss"
    unfolding process_key_def by presburger
  then show ?thesis
  proof cases
    case equals
    from assms(3) equals_key_shown[of F ss] show ?thesis unfolding equals by blast
  qed (use assms(1,2) in \<open>simp_all add: other_keys_ended\<close>)
qed

lemma after_key_generic:
  assumes "calculation_has_ended r \<and> calculator_error (globals r) \<longrightarrow>
           lcd r = (c_str (error_message (globals r)), [])"
    and "calculator_error (globals (after_key r))"
  shows "calculation_has_ended (after_key r)
         \<and> lcd (after_key r) = (c_str (error_message (globals (after_key r))), [])"
  using assms
  by (cases "calculation_has_ended r"; cases "calculator_error (globals r)")
     (simp_all add: after_key_def show_error_def show_input_def)

lemma after_key_shown:
  assumes "\<not> calculation_has_ended ss"
    and "calculator_error (globals (after_key (process_key F key ss)))"
  shows "calculation_has_ended (after_key (process_key F key ss))
   \<and> lcd (after_key (process_key F key ss))
       = (c_str (error_message (globals (after_key (process_key F key ss)))), [])"
proof (rule after_key_generic[OF _ assms(2)], intro impI)
  assume "calculation_has_ended (process_key F key ss)
          \<and> calculator_error (globals (process_key F key ss))"
  then show "lcd (process_key F key ss) = (c_str (error_message (globals (process_key F key ss))), [])"
    using process_key_ended[OF assms(1), of F key] by blast
qed

lemma input_states_shown:
  assumes "\<not> calculation_has_ended ss" "\<not> calculator_error (globals ss)"
    "calculator_error (globals (input_states F key ss))"
  shows "calculation_has_ended (input_states F key ss)
   \<and> lcd (input_states F key ss) = (c_str (error_message (globals (input_states F key ss))), [])"
proof (cases "key = KEY_NONE")
  case True
  with assms show ?thesis by (simp add: input_states_def)
next
  case False
  with assms have e: "input_states F key ss = after_key (process_key F key ss)"
    by (simp add: input_states_def)
  from assms(3) have "calculator_error (globals (after_key (process_key F key ss)))"
    unfolding e .
  from after_key_shown[OF assms(1) this] show ?thesis
    unfolding e .
qed

lemma loop_iteration_invariant:
  assumes "calculator_error (globals ss) \<longrightarrow> calculation_has_ended ss"
    "calculator_error (globals (loop_iteration F key ss))"
  shows "calculation_has_ended (loop_iteration F key ss)"
proof (cases "calculation_has_ended ss")
  case False
  with assms(1) have ne: "\<not> calculator_error (globals ss)" by simp
  from False have e: "loop_iteration F key ss = input_states F key ss"
    by (simp add: loop_iteration_def)
  from input_states_shown[OF False ne, of F key] assms(2) show ?thesis
    unfolding e by simp
next
  case True
  let ?ss1 = "ss\<lparr>globals := clear_all_state (globals ss),
                        calculation_has_ended := False,
                        decimal_point_entered := False,
                        last_key_was_operator := False\<rparr>"
  have c: "\<not> calculation_has_ended ?ss1" "\<not> calculator_error (globals ?ss1)"
    by (simp_all add: clear_all_state_def)
  show ?thesis
  proof (cases "key = KEY_NONE")
    case knone: True
    with True show ?thesis by (simp add: loop_iteration_def)
  next
    case False
    show ?thesis
    proof (cases "key = KEY_EQUALS \<and> calculator_error (globals ss)")
      case ack: True
      with True False have "loop_iteration F key ss = show_input ?ss1"
        by (simp add: loop_iteration_def Let_def)
      with assms(2) c(2) show ?thesis by (simp add: show_input_def)
    next
      case nack: False
      with True False have e: "loop_iteration F key ss = input_states F key ?ss1"
        by (auto simp: loop_iteration_def Let_def)
      from input_states_shown[OF c, of F key] assms(2) show ?thesis
        unfolding e by simp
    qed
  qed
qed

lemma start_session_clear:
  "\<not> calculator_error (globals (start_session F))" "\<not> calculation_has_ended (start_session F)"
  by (simp_all add: start_session_def show_input_def clear_all_state_def)

lemma press_invariant:
  "calculator_error (globals ss) \<longrightarrow> calculation_has_ended ss \<Longrightarrow>
   calculator_error (globals (press F keys ss)) \<longrightarrow> calculation_has_ended (press F keys ss)"
  unfolding press_def
proof (induction keys arbitrary: ss)
  case Nil
  then show ?case by simp
next
  case (Cons k keys)
  have "calculator_error (globals (loop_iteration F k ss)) \<longrightarrow>
        calculation_has_ended (loop_iteration F k ss)"
    using loop_iteration_invariant[OF Cons.prems, of F k] by blast
  from Cons.IH[OF this] show ?case by simp
qed

text \<open>
  Claim C9 does not hold as stated. In the session at the start of the loop, with no
  error and nothing entered, the key \<open>*\<close> raises \<^verbatim>\<open>Err: Syntax\<close>, and the same
  iteration of the loop sets \<^verbatim>\<open>calculation_has_ended\<close> and writes the message to
  the display.
\<close>

theorem fault_shown_at_once_counterexample:
  "\<not> calculation_has_ended (start_session b32)
   \<and> \<not> calculator_error (globals (start_session b32))
   \<and> calculator_error (globals (loop_iteration b32 KEY_MULTIPLY (start_session b32)))
   \<and> calculation_has_ended (loop_iteration b32 KEY_MULTIPLY (start_session b32))
   \<and> lcd (loop_iteration b32 KEY_MULTIPLY (start_session b32)) = (''Err: Syntax'', [])"
  by code_simp

text \<open>
  Claim C9, amended (a fault is shown in the iteration that raises it). When an
  iteration of the loop starts with no error and no result shown and its key raises
  an error, that same iteration sets \<^verbatim>\<open>calculation_has_ended\<close> and shows the error
  message on line 1 with line 2 empty. After any sequence of keys from the start of the
  loop an active error implies \<^verbatim>\<open>calculation_has_ended\<close>, so the block of the loop
  that would show an error one key later is never entered.
\<close>

theorem fault_shown_at_once:
  "(\<not> calculation_has_ended ss \<and> \<not> calculator_error (globals ss)
      \<and> calculator_error (globals (loop_iteration F key ss)) \<longrightarrow>
        calculation_has_ended (loop_iteration F key ss)
        \<and> lcd (loop_iteration F key ss)
            = (c_str (error_message (globals (loop_iteration F key ss))), []))
   \<and> (calculator_error (globals (press F keys (start_session F))) \<longrightarrow>
        calculation_has_ended (press F keys (start_session F)))"
proof (intro conjI impI)
  assume h: "\<not> calculation_has_ended ss \<and> \<not> calculator_error (globals ss)
      \<and> calculator_error (globals (loop_iteration F key ss))"
  then have e: "loop_iteration F key ss = input_states F key ss"
    by (simp add: loop_iteration_def)
  from h input_states_shown[of ss F key]
  show "calculation_has_ended (loop_iteration F key ss)"
    "lcd (loop_iteration F key ss) = (c_str (error_message (globals (loop_iteration F key ss))), [])"
    unfolding e by simp_all
next
  assume "calculator_error (globals (press F keys (start_session F)))"
  then show "calculation_has_ended (press F keys (start_session F))"
    using press_invariant[of "start_session F" F keys] start_session_clear[of F] by blast
qed

theorem fault_shown_at_once_witness:
  "\<not> calculation_has_ended sixteen_digits
   \<and> \<not> calculator_error (globals sixteen_digits)
   \<and> calculator_error (globals (loop_iteration b32 1 sixteen_digits))
   \<and> calculation_has_ended (loop_iteration b32 1 sixteen_digits)
   \<and> lcd (loop_iteration b32 1 sixteen_digits) = (''Err: Num Len'', [])
   \<and> calculator_error (globals (press b32 [KEY_DECIMAL, KEY_DECIMAL] (start_session b32)))
   \<and> calculation_has_ended (press b32 [KEY_DECIMAL, KEY_DECIMAL] (start_session b32))"
proof -
  have h: "\<not> calculation_has_ended sixteen_digits \<and> \<not> calculator_error (globals sixteen_digits)
      \<and> calculator_error (globals (loop_iteration b32 1 sixteen_digits))"
    by code_simp
  have m: "c_str (error_message (globals (loop_iteration b32 1 sixteen_digits))) = ''Err: Num Len''"
    by code_simp
  have p: "calculator_error (globals (press b32 [KEY_DECIMAL, KEY_DECIMAL] (start_session b32)))"
    by code_simp
  from fault_shown_at_once[of sixteen_digits b32 1 "[KEY_DECIMAL, KEY_DECIMAL]"] h p
  have "calculation_has_ended (loop_iteration b32 1 sixteen_digits)
      \<and> lcd (loop_iteration b32 1 sixteen_digits)
          = (c_str (error_message (globals (loop_iteration b32 1 sixteen_digits))), [])
      \<and> calculation_has_ended (press b32 [KEY_DECIMAL, KEY_DECIMAL] (start_session b32))"
    by blast
  then show ?thesis using h p unfolding m by blast
qed

lemma input_states_entering:
  assumes "\<not> calculation_has_ended ss" "\<not> calculator_error (globals ss)" "key \<noteq> KEY_NONE"
  shows "loop_iteration F key ss = after_key (process_key F key ss)"
  using assms by (simp add: loop_iteration_def input_states_def)

lemma operator_key_times:
  assumes "expr_len (globals ss) = 0" "current_num_index (globals ss) = 0"
    "key = KEY_MULTIPLY \<or> key = KEY_DIVIDE"
  shows "process_key F key ss = ss\<lparr>globals := set_error ''Err: Syntax'' (globals ss)\<rparr>"
  using assms
  by (auto simp: process_key_def operator_key_def Let_def set_error_sets
      KEY_0_def KEY_9_def KEY_PLUS_def KEY_MULTIPLY_def KEY_DIVIDE_def KEY_DECIMAL_def)

lemma operator_key_minus:
  assumes "expr_len (globals ss) = 0 \<or> last_key_was_operator ss"
    "current_num_index (globals ss) = 0"
  shows "process_key F KEY_MINUS ss =
         ss\<lparr>globals := append_char CHR ''-'' (globals ss), last_key_was_operator := False\<rparr>"
  using assms
  by (auto simp: process_key_def operator_key_def Let_def LCD_LINE_LEN_def
      KEY_0_def KEY_9_def KEY_PLUS_def KEY_MINUS_def KEY_DIVIDE_def KEY_DECIMAL_def)

lemma operator_key_plus:
  assumes "expr_len (globals ss) = 0" "current_num_index (globals ss) = 0"
    "\<not> calculator_error (globals ss)"
  shows "process_key F KEY_PLUS ss =
         ss\<lparr>globals := push_operator_to_expr F CHR ''+'' (globals ss),
            last_key_was_operator := True\<rparr>"
  using assms
  by (auto simp: process_key_def operator_key_def Let_def
      KEY_0_def KEY_9_def KEY_PLUS_def KEY_DIVIDE_def KEY_DECIMAL_def)

lemma push_operator_no_error:
  "\<not> calculator_error g \<Longrightarrow> expr_len g < MAX_TOKENS \<Longrightarrow>
   \<not> calculator_error (push_operator_to_expr F c g)"
  by (simp add: push_operator_to_expr_def add_to_expression_string_def Let_def)

lemma append_char_frame:
  "calculator_error (append_char c g) = calculator_error g"
  "expr_type (append_char c g) = expr_type g"
  "expr_data (append_char c g) = expr_data g"
  "expr_len (append_char c g) = expr_len g"
  by (simp_all add: append_char_def)

lemma append_char_first:
  "current_num_index g = 0 \<Longrightarrow> 0 < length (current_num_str g) \<Longrightarrow>
   scanned (append_char c g) = [c]"
  by (cases "current_num_str g") (simp_all add: append_char_def scanned_def)

text \<open>
  Where the operator keys behave as the comments of the loop say, in the entering phase
  with no error and no digits pending: on an empty token buffer the keys \<open>*\<close> and
  \<open>/\<close> raise \<^verbatim>\<open>Err: Syntax\<close>, which is shown at once, and leave the buffer empty;
  on an empty token buffer, or right after an operator key, the key \<open>-\<close> is the unary
  minus: it starts the pending entry \<open>-\<close> and leaves the token buffer as it is; on an
  empty token buffer the key \<open>+\<close> raises no fault.
\<close>

lemma operator_key_without_pending_entry:
  "(\<not> calculation_has_ended ss \<and> \<not> calculator_error (globals ss)
      \<and> current_num_index (globals ss) = 0 \<and> expr_len (globals ss) = 0
      \<and> length (error_message (globals ss)) = ERROR_MSG_LEN
      \<and> (key = KEY_MULTIPLY \<or> key = KEY_DIVIDE) \<longrightarrow>
        calculator_error (globals (loop_iteration F key ss))
        \<and> c_str (error_message (globals (loop_iteration F key ss))) = ''Err: Syntax''
        \<and> calculation_has_ended (loop_iteration F key ss)
        \<and> lcd (loop_iteration F key ss) = (''Err: Syntax'', [])
        \<and> expr_len (globals (loop_iteration F key ss)) = 0)
   \<and> (\<not> calculation_has_ended ss \<and> \<not> calculator_error (globals ss)
      \<and> current_num_index (globals ss) = 0
      \<and> (expr_len (globals ss) = 0 \<or> last_key_was_operator ss)
      \<and> 0 < length (current_num_str (globals ss)) \<longrightarrow>
        \<not> calculator_error (globals (loop_iteration F KEY_MINUS ss))
        \<and> \<not> calculation_has_ended (loop_iteration F KEY_MINUS ss)
        \<and> scanned (globals (loop_iteration F KEY_MINUS ss)) = ''-''
        \<and> expr_type (globals (loop_iteration F KEY_MINUS ss)) = expr_type (globals ss)
        \<and> expr_data (globals (loop_iteration F KEY_MINUS ss)) = expr_data (globals ss)
        \<and> expr_len (globals (loop_iteration F KEY_MINUS ss)) = expr_len (globals ss))
   \<and> (\<not> calculation_has_ended ss \<and> \<not> calculator_error (globals ss)
      \<and> current_num_index (globals ss) = 0 \<and> expr_len (globals ss) = 0 \<longrightarrow>
        \<not> calculator_error (globals (loop_iteration F KEY_PLUS ss))
        \<and> \<not> calculation_has_ended (loop_iteration F KEY_PLUS ss))"
proof (intro conjI impI)
  assume h: "\<not> calculation_has_ended ss \<and> \<not> calculator_error (globals ss)
      \<and> current_num_index (globals ss) = 0 \<and> expr_len (globals ss) = 0
      \<and> length (error_message (globals ss)) = ERROR_MSG_LEN
      \<and> (key = KEY_MULTIPLY \<or> key = KEY_DIVIDE)"
  then have k: "key \<noteq> KEY_NONE"
    by (auto simp: KEY_MULTIPLY_def KEY_DIVIDE_def KEY_NONE_def)
  have e: "loop_iteration F key ss
           = after_key (ss\<lparr>globals := set_error ''Err: Syntax'' (globals ss)\<rparr>)"
    using h k input_states_entering[of ss key F] operator_key_times[of ss key F] by simp
  have m: "c_str (error_message (set_error ''Err: Syntax'' (globals ss))) = ''Err: Syntax''"
    using h syntax_message[of "globals ss"] by simp
  show "calculator_error (globals (loop_iteration F key ss))"
    "c_str (error_message (globals (loop_iteration F key ss))) = ''Err: Syntax''"
    "calculation_has_ended (loop_iteration F key ss)"
    "lcd (loop_iteration F key ss) = (''Err: Syntax'', [])"
    "expr_len (globals (loop_iteration F key ss)) = 0"
    unfolding e using h m
    by (simp_all add: after_key_def show_error_def set_error_sets set_error_frame)
next
  assume h: "\<not> calculation_has_ended ss \<and> \<not> calculator_error (globals ss)
      \<and> current_num_index (globals ss) = 0
      \<and> (expr_len (globals ss) = 0 \<or> last_key_was_operator ss)
      \<and> 0 < length (current_num_str (globals ss))"
  have k: "KEY_MINUS \<noteq> KEY_NONE"
    by (simp add: KEY_MINUS_def KEY_NONE_def)
  have e: "loop_iteration F KEY_MINUS ss
           = after_key (ss\<lparr>globals := append_char CHR ''-'' (globals ss),
                             last_key_was_operator := False\<rparr>)"
    using h k input_states_entering[of ss KEY_MINUS F] operator_key_minus[of ss F] by simp
  have sc: "scanned (append_char CHR ''-'' (globals ss)) = ''-''"
    using h append_char_first[of "globals ss" "CHR ''-''"] by simp
  show "\<not> calculator_error (globals (loop_iteration F KEY_MINUS ss))"
    "\<not> calculation_has_ended (loop_iteration F KEY_MINUS ss)"
    "scanned (globals (loop_iteration F KEY_MINUS ss)) = ''-''"
    "expr_type (globals (loop_iteration F KEY_MINUS ss)) = expr_type (globals ss)"
    "expr_data (globals (loop_iteration F KEY_MINUS ss)) = expr_data (globals ss)"
    "expr_len (globals (loop_iteration F KEY_MINUS ss)) = expr_len (globals ss)"
    unfolding e using h sc
    by (simp_all add: after_key_def show_input_def append_char_frame)
next
  assume h: "\<not> calculation_has_ended ss \<and> \<not> calculator_error (globals ss)
      \<and> current_num_index (globals ss) = 0 \<and> expr_len (globals ss) = 0"
  have k: "KEY_PLUS \<noteq> KEY_NONE"
    by (simp add: KEY_PLUS_def KEY_NONE_def)
  have e: "loop_iteration F KEY_PLUS ss
           = after_key (ss\<lparr>globals := push_operator_to_expr F CHR ''+'' (globals ss),
                             last_key_was_operator := True\<rparr>)"
    using h k input_states_entering[of ss KEY_PLUS F] operator_key_plus[of ss F] by simp
  have ne: "\<not> calculator_error (push_operator_to_expr F CHR ''+'' (globals ss))"
    using h push_operator_no_error[of "globals ss" F "CHR ''+''"] by (simp add: MAX_TOKENS_def)
  show "\<not> calculator_error (globals (loop_iteration F KEY_PLUS ss))"
    "\<not> calculation_has_ended (loop_iteration F KEY_PLUS ss)"
    unfolding e using h ne
    by (simp_all add: after_key_def show_input_def)
qed

text \<open>
  Right after an operator key the flag \<^verbatim>\<open>last_key_was_operator\<close> is set, and the test
  \<^verbatim>\<open>expr_type[expr_len - 1] == 'O' && !last_key_was_operator\<close> of the loop is then
  false: on a non-empty token buffer the keys \<open>+\<close>, \<open>*\<close> and \<open>/\<close> raise no fault
  and push their operator, whatever the last token is.
\<close>

lemma operator_key_after_operator_key:
  assumes "\<not> calculation_has_ended ss" and "\<not> calculator_error (globals ss)"
    and "current_num_index (globals ss) = 0" and "last_key_was_operator ss"
    and "0 < expr_len (globals ss)" and "expr_len (globals ss) < MAX_TOKENS"
    and "length (expr_type (globals ss)) = MAX_TOKENS"
    and "length (expr_data (globals ss)) = MAX_TOKENS"
    and "key = KEY_PLUS \<and> c = CHR ''+'' \<or> key = KEY_MULTIPLY \<and> c = CHR ''*''
         \<or> key = KEY_DIVIDE \<and> c = CHR ''/''"
  shows "\<not> calculator_error (globals (loop_iteration F key ss))"
    and "tokens (globals (loop_iteration F key ss))
         = tokens (globals ss) @ [(CHR ''O'', fl_of_char F c)]"
proof -
  have k: "key \<noteq> KEY_NONE"
    using assms(9) by (auto simp: KEY_PLUS_def KEY_MULTIPLY_def KEY_DIVIDE_def KEY_NONE_def)
  have p: "process_key F key ss =
           ss\<lparr>globals := push_operator_to_expr F c (globals ss), last_key_was_operator := True\<rparr>"
    using assms(2,3,4,5,9)
    by (auto simp: process_key_def operator_key_def Let_def
        KEY_0_def KEY_9_def KEY_PLUS_def KEY_MULTIPLY_def KEY_DIVIDE_def KEY_DECIMAL_def)
  have e: "loop_iteration F key ss
           = after_key (ss\<lparr>globals := push_operator_to_expr F c (globals ss),
                             last_key_was_operator := True\<rparr>)"
    using input_states_entering[OF assms(1,2) k, of F] p by simp
  note room = do_push_room[OF assms(2,6,7,8), of F "Operator c"]
  have ne: "\<not> calculator_error (push_operator_to_expr F c (globals ss))"
    using room(3) by simp
  show "\<not> calculator_error (globals (loop_iteration F key ss))"
    unfolding e using assms(1) ne by (simp add: after_key_def show_input_def)
  show "tokens (globals (loop_iteration F key ss))
        = tokens (globals ss) @ [(CHR ''O'', fl_of_char F c)]"
    unfolding e using assms(1) ne room(1) by (simp add: after_key_def show_input_def)
qed

text \<open>
  Claim C8 (an operator key with no operand before it): the loop departs from the claim,
  and from its own comment on the check (\<^verbatim>\<open>Operator pressed without a preceding operand
  (e.g. "*5" or "5++")\<close>, \<^verbatim>\<open>Allow leading '+' (often ignored)\<close>). After the keys
  \<open>5\<close> and \<open>+\<close> the session is in the entering phase with no digits pending and an
  operator as the last token; the key \<open>*\<close> then raises no fault and is pushed, and so is
  a second \<open>+\<close>. At the start of the loop the key \<open>+\<close> raises no fault but is pushed as
  the first token, so that the keys \<open>+ 5 =\<close> end in \<^verbatim>\<open>Err: Syntax\<close>. On the empty
  buffer the key \<open>*\<close> does raise \<^verbatim>\<open>Err: Syntax\<close>, as the claim says.
\<close>

theorem operator_after_operator_accepted:
  "\<not> calculation_has_ended five_plus
   \<and> \<not> calculator_error (globals five_plus)
   \<and> current_num_index (globals five_plus) = 0
   \<and> tokens (globals five_plus) = [(CHR ''N'', Fin 5), (CHR ''O'', Fin 43)]
   \<and> \<not> calculator_error (globals (loop_iteration b32 KEY_MULTIPLY five_plus))
   \<and> \<not> calculation_has_ended (loop_iteration b32 KEY_MULTIPLY five_plus)
   \<and> tokens (globals (loop_iteration b32 KEY_MULTIPLY five_plus))
       = [(CHR ''N'', Fin 5), (CHR ''O'', Fin 43), (CHR ''O'', Fin 42)]
   \<and> \<not> calculator_error (globals (loop_iteration b32 KEY_PLUS five_plus))
   \<and> tokens (globals (loop_iteration b32 KEY_PLUS five_plus))
       = [(CHR ''N'', Fin 5), (CHR ''O'', Fin 43), (CHR ''O'', Fin 43)]
   \<and> \<not> calculation_has_ended (start_session b32)
   \<and> \<not> calculator_error (globals (start_session b32))
   \<and> current_num_index (globals (start_session b32)) = 0
   \<and> tokens (globals (start_session b32)) = []
   \<and> \<not> calculator_error (globals (loop_iteration b32 KEY_PLUS (start_session b32)))
   \<and> tokens (globals (loop_iteration b32 KEY_PLUS (start_session b32)))
       = [(CHR ''O'', Fin 43)]
   \<and> calculator_error (globals (press b32 [KEY_PLUS, 5, KEY_EQUALS] (start_session b32)))
   \<and> lcd (press b32 [KEY_PLUS, 5, KEY_EQUALS] (start_session b32)) = (''Err: Syntax'', [])
   \<and> calculator_error (globals (loop_iteration b32 KEY_MULTIPLY (start_session b32)))
   \<and> lcd (loop_iteration b32 KEY_MULTIPLY (start_session b32)) = (''Err: Syntax'', [])"
  by code_simp

section \<open>The unit tests of test_logic.c hold of the embedding\<close>

text \<open>Every assertion of the repository's test suite, evaluated on the embedding in
  binary32 arithmetic.\<close>

lemma test_parse_values:
  "passes_with (parse_test ''123'') 123"
  "passes_with (parse_test ''0'') 0"
  "passes_with (parse_test ''12.34'') (1234 / 100)"
  "passes_with (parse_test ''0.5'') (5 / 10)"
  "passes_with (parse_test ''-10'') (- 10)"
  "passes_with (parse_test ''-3.14'') (- 314 / 100)"
  "passes_with (parse_test '''') 0"
  by code_simp+

lemma test_parse_errors:
  "fails_with (parse_test ''1.2.3'') ''Err: Syntax''"
  "fails_with (parse_test ''12a3'') ''Err: Syntax''"
  "fails_with (parse_test ''-'') ''Err: Syntax''"
  by code_simp+

lemma test_eval_values:
  "passes_with (eval_test ''NON'' [lit 2, Fin 43, lit 3]) 5"
  "passes_with (eval_test ''NON'' [lit 5, Fin 45, lit 2]) 3"
  "passes_with (eval_test ''NON'' [lit 3, Fin 42, lit 4]) 12"
  "passes_with (eval_test ''NON'' [lit 10, Fin 47, lit 2]) 5"
  "passes_with (eval_test ''NONON'' [lit 2, Fin 43, lit 3, Fin 42, lit 4]) 14"
  "passes_with (eval_test ''NONON'' [lit 2, Fin 42, lit 3, Fin 43, lit 4]) 10"
  "passes_with (eval_test ''NONON'' [lit 10, Fin 45, lit 2, Fin 43, lit 3]) 11"
  "passes_with (eval_test ''NON'' [lit 1, Fin 47, lit 2]) (5 / 10)"
  "passes_with (eval_test ''NON'' [lit (- 2), Fin 43, lit 5]) 3"
  "passes_with (eval_test ''NON'' [lit 5, Fin 42, lit (- 2)]) (- 10)"
  "passes_with (eval_test ''N'' [lit 7]) 7"
  "passes_with (eval_test [] []) 0"
  by code_simp+

lemma test_eval_errors:
  "fails_with (eval_test ''NON'' [lit 1, Fin 47, lit 0]) ''Err: Div Zero''"
  "fails_with (eval_test ''NOO'' [lit 5, Fin 42, Fin 43]) ''Err: Syntax''"
  "calculator_error (run_pushes b32 long_push (clear_all_state (init_calc b32)))"
  "c_str (error_message (run_pushes b32 long_push (clear_all_state (init_calc b32))))
   = ''Err: Expr Long''"
  by code_simp+

end
